theory Spec2Isabelle
  imports Main "HOL-Library.AList" "HOL-Library.Char_ord" "HOL-Library.List_Lexorder"
begin

section \<open>JavaScript values and documents\<close>

text \<open>
  A field of a Firestore document holds null, a boolean, a number, a string, a timestamp,
  an array or a map. Numbers are the integer-valued ones (printed in decimal, as JavaScript
  does below \<open>10^21\<close>); a string is the list of its code units, each below 256. An object is
  the list of its properties; reading a property takes the first pair with that name, and
  \<open>None\<close> stands for \<open>undefined\<close>. The order of the properties carries no meaning for the
  database.
\<close>

datatype jsval =
    JNull
  | JBool bool
  | JNum int
  | JStr string
  | JTime int nat
  | JArr "jsval list"
  | JObj "(string \<times> jsval) list"

type_synonym jsobj = "(string \<times> jsval) list"

definition getprop :: "jsobj \<Rightarrow> string \<Rightarrow> jsval option" where
  "getprop obj k = map_of obj k"

text \<open>Truthiness, as \<open>!v\<close>, \<open>v || d\<close> and \<open>if (v)\<close> read it.\<close>

fun truthy :: "jsval option \<Rightarrow> bool" where
  "truthy None = False"
| "truthy (Some JNull) = False"
| "truthy (Some (JBool b)) = b"
| "truthy (Some (JNum n)) = (n \<noteq> 0)"
| "truthy (Some (JStr s)) = (s \<noteq> [])"
| "truthy (Some (JTime a b)) = True"
| "truthy (Some (JArr xs)) = True"
| "truthy (Some (JObj fs)) = True"

subsection \<open>The conversion \<open>String(v)\<close>\<close>

function show_nat :: "nat \<Rightarrow> string" where
  "show_nat n =
     (if n < 10 then [char_of (48 + n)]
      else show_nat (n div 10) @ [char_of (48 + n mod 10)])"
  by pat_completeness auto
termination
  by (relation "measure id") auto

declare show_nat.simps [simp del]

definition show_int :: "int \<Rightarrow> string" where
  "show_int i = (if i < 0 then CHR ''-'' # show_nat (nat (- i)) else show_nat (nat i))"

fun join_comma :: "string list \<Rightarrow> string" where
  "join_comma [] = []"
| "join_comma [x] = x"
| "join_comma (x # y # ys) = x @ '','' @ join_comma (y # ys)"

text \<open>
  An array prints as its elements joined by commas, null elements as the empty string; a
  plain object prints as \<open>[object Object]\<close>; a Firestore timestamp prints its two fields.
\<close>

fun to_String :: "jsval \<Rightarrow> string" where
  "to_String JNull = ''null''"
| "to_String (JBool b) = (if b then ''true'' else ''false'')"
| "to_String (JNum n) = show_int n"
| "to_String (JStr s) = s"
| "to_String (JTime a b) =
     ''Timestamp(seconds='' @ show_int a @ '', nanoseconds='' @ show_nat b @ '')''"
| "to_String (JArr xs) = join_comma (map (\<lambda>x. if x = JNull then [] else to_String x) xs)"
| "to_String (JObj fs) = ''[object Object]''"

section \<open>The deterministic entry id\<close>

text \<open>
  \<^verbatim>\<open>const safe = (s='') => String(s || '').trim().replace(/\s+/g,'_').replace(/[^A-Za-z0-9_\-]/g,'');\<close>
  \<^verbatim>\<open>return `${safe(entry.course)}__${safe(entry.date)}__${safe(entry.hour)}`;\<close>

  The white space of \<open>trim\<close> and of \<open>\s\<close> among the code units below 256 is tab, line feed,
  vertical tab, form feed, carriage return, space and the no-break space.
\<close>

definition is_space :: "char \<Rightarrow> bool" where
  "is_space c \<longleftrightarrow> c \<in> {CHR 0x09, CHR 0x0A, CHR 0x0B, CHR 0x0C, CHR 0x0D, CHR 0x20, CHR 0xA0}"

definition id_char :: "char \<Rightarrow> bool" where
  "id_char c \<longleftrightarrow>
     c \<in> set ''ABCDEFGHIJKLMNOPQRSTUVWXYZabcdefghijklmnopqrstuvwxyz0123456789_-''"

definition trim :: "string \<Rightarrow> string" where
  "trim s = rev (dropWhile is_space (rev (dropWhile is_space s)))"

function collapse_ws :: "string \<Rightarrow> string" where
  "collapse_ws [] = []"
| "collapse_ws (c # cs) =
     (if is_space c then CHR ''_'' # collapse_ws (dropWhile is_space cs)
      else c # collapse_ws cs)"
  by pat_completeness auto
termination
  by (relation "measure length") (auto simp: length_dropWhile_le less_Suc_eq_le)

definition safe :: "jsval option \<Rightarrow> string" where
  "safe s =
     filter id_char (collapse_ws (trim
       (case s of None \<Rightarrow> [] | Some v \<Rightarrow> if truthy (Some v) then to_String v else [])))"

definition makeEntryId :: "jsobj \<Rightarrow> string" where
  "makeEntryId entry =
     safe (getprop entry ''course'') @ ''__'' @ safe (getprop entry ''date'') @ ''__'' @
     safe (getprop entry ''hour'')"

section \<open>The document database\<close>

text \<open>
  The database holds the metadata document \<open>meta/kb_meta\<close> and the collection \<open>entries\<close>,
  keyed by document id. Every round trip to it either resolves or rejects with an error;
  \<open>faults\<close> lists the outcomes of the coming round trips (\<open>None\<close> resolves, \<open>Some e\<close>
  rejects with \<open>e\<close>), and once the list is used up every round trip resolves. The remaining
  fields are what the environment supplies: the database's order on field values
  (\<open>value_le\<close>, used by \<open>orderBy\<close>), the ids the database generates for \<open>add\<close>, the
  results of \<open>Math.random().toString(36).slice(2, 8)\<close>, the current date as
  \<open>toISOString().slice(0, 10)\<close> gives it, and the server's timestamp.

  The calls of the facade are taken one after the other and the facade is the only
  writer: between two round trips of one call the database does not change. Writing to
  the console is left out.
\<close>

datatype jserr = JSError string string

record backend =
  meta_doc :: "jsobj option"
  entries :: "(string \<times> jsobj) list"
  faults :: "jserr option list"
  value_le :: "jsval \<Rightarrow> jsval \<Rightarrow> bool"
  gen_id :: "nat \<Rightarrow> string"
  gen_count :: nat
  random36 :: "nat \<Rightarrow> string"
  drawn :: nat
  today :: string
  server_time :: "int \<times> nat"

text \<open>
  An asynchronous function either fulfils with a value (\<open>Inr\<close>) or rejects with an error
  (\<open>Inl\<close>), and may change the database on the way.
\<close>

type_synonym 'a io = "backend \<Rightarrow> (jserr + 'a) \<times> backend"

definition ret :: "'a \<Rightarrow> 'a io" where
  "ret x s = (Inr x, s)"

definition throw :: "jserr \<Rightarrow> 'a io" where
  "throw e s = (Inl e, s)"

definition bind :: "'a io \<Rightarrow> ('a \<Rightarrow> 'b io) \<Rightarrow> 'b io" where
  "bind m f s = (case m s of (Inl e, s') \<Rightarrow> (Inl e, s') | (Inr x, s') \<Rightarrow> f x s')"

definition catch :: "'a io \<Rightarrow> (jserr \<Rightarrow> 'a io) \<Rightarrow> 'a io" where
  "catch m h s = (case m s of (Inl e, s') \<Rightarrow> h e s' | (Inr x, s') \<Rightarrow> (Inr x, s'))"

definition request :: "unit io" where
  "request s =
     (case faults s of
        [] \<Rightarrow> (Inr (), s)
      | None # fs \<Rightarrow> (Inr (), s\<lparr>faults := fs\<rparr>)
      | Some e # fs \<Rightarrow> (Inl e, s\<lparr>faults := fs\<rparr>))"

text \<open>\<open>doc(id).get()\<close>: the snapshot's data, \<open>None\<close> when \<open>snap.exists\<close> is false.\<close>

definition get_entry :: "string \<Rightarrow> jsobj option io" where
  "get_entry i = bind request (\<lambda>_ s. (Inr (map_of (entries s) i), s))"

text \<open>
  \<open>doc(id).update(data)\<close> sets the given fields, each as a whole, and rejects when the
  document is absent. Field names are taken as they are (no name with a dot occurs in
  the facade).
\<close>

definition update_entry :: "string \<Rightarrow> jsobj \<Rightarrow> unit io" where
  "update_entry i data =
     bind request (\<lambda>_ s.
       case map_of (entries s) i of
         None \<Rightarrow> (Inl (JSError ''FirebaseError'' ''No document to update''), s)
       | Some cur \<Rightarrow> (Inr (), s\<lparr>entries := AList.update i (AList.merge cur data) (entries s)\<rparr>))"

text \<open>\<open>doc(id).delete()\<close> resolves whether or not the document exists.\<close>

definition delete_entry :: "string \<Rightarrow> unit io" where
  "delete_entry i = bind request (\<lambda>_ s. (Inr (), s\<lparr>entries := AList.delete i (entries s)\<rparr>))"

text \<open>
  \<open>runTransaction\<close>: the body reads the collection and returns its result with the writes it
  buffered; the writes are applied together when the transaction commits, and none of them
  when the transaction rejects.
\<close>

datatype tx_write = TxSet string jsobj | TxDelete string

fun apply_write :: "tx_write \<Rightarrow> (string \<times> jsobj) list \<Rightarrow> (string \<times> jsobj) list" where
  "apply_write (TxSet i d) docs = AList.update i d docs"
| "apply_write (TxDelete i) docs = AList.delete i docs"

definition runTransaction :: "((string \<times> jsobj) list \<Rightarrow> 'a \<times> tx_write list) \<Rightarrow> 'a io" where
  "runTransaction body =
     bind request (\<lambda>_ s.
       case body (entries s) of (r, ws) \<Rightarrow> (Inr r, s\<lparr>entries := fold apply_write ws (entries s)\<rparr>))"

section \<open>The entry operations of the deterministic-key facade\<close>

text \<open>
  From \<open>src/unnamed/part_000\<close>; the second version in \<open>src/storage.firebase.js\<close> has the
  same entry operations.
\<close>

text \<open>The results \<open>{ok: true}\<close>, \<open>{ok: true, id}\<close> and \<open>{ok: false, reason}\<close>.\<close>

datatype result = Ok | OkId string | Fail string

text \<open>\<open>err.message || String(err)\<close>: an error with an empty message prints as its name.\<close>

fun reason :: "jserr \<Rightarrow> string" where
  "reason (JSError name msg) = (if msg \<noteq> [] then msg else name)"

definition addEntry :: "jsobj \<Rightarrow> result io" where
  "addEntry entry =
     catch
       (let i = makeEntryId entry in
        runTransaction (\<lambda>docs.
          case map_of docs i of
            Some _ \<Rightarrow> (Fail ''duplicate'', [])
          | None \<Rightarrow> (OkId i, [TxSet i entry])))
       (\<lambda>err. ret (Fail (reason err)))"

text \<open>
  The id argument is \<open>None\<close> when the caller passes none. \<open>Object.assign({}, oldData, data)\<close>
  is \<open>AList.merge oldData data\<close>.
\<close>

definition updateEntry :: "string option \<Rightarrow> jsobj \<Rightarrow> result io" where
  "updateEntry oldId data =
     catch
       (case oldId of
          None \<Rightarrow> ret (Fail ''missing id'')
        | Some i \<Rightarrow>
            if i = [] then ret (Fail ''missing id'')
            else bind (get_entry i) (\<lambda>oldSnap.
              case oldSnap of
                None \<Rightarrow> ret (Fail ''not found'')
              | Some current \<Rightarrow>
                  if truthy (getprop current ''locked'') then ret (Fail ''locked'')
                  else
                    let newId = makeEntryId data in
                    if newId = i then bind (update_entry i data) (\<lambda>_. ret Ok)
                    else
                      runTransaction (\<lambda>docs.
                        case map_of docs newId of
                          Some _ \<Rightarrow> (Fail ''duplicate_target'', [])
                        | None \<Rightarrow>
                            (case map_of docs i of
                               None \<Rightarrow> (Fail ''not_found_during_tx'', [])
                             | Some oldData \<Rightarrow>
                                 if truthy (getprop oldData ''locked'') then (Fail ''locked'', [])
                                 else (OkId newId,
                                       [TxSet newId (AList.merge oldData data), TxDelete i])))))
       (\<lambda>err. ret (Fail (reason err)))"

definition deleteEntryById :: "string \<Rightarrow> result io" where
  "deleteEntryById i =
     catch (bind (delete_entry i) (\<lambda>_. ret Ok)) (\<lambda>err. ret (Fail (reason err)))"

definition toggleLockEntry :: "string \<Rightarrow> result io" where
  "toggleLockEntry i =
     catch
       (bind (get_entry i) (\<lambda>snap.
          case snap of
            None \<Rightarrow> ret (Fail ''not found'')
          | Some current \<Rightarrow>
              bind (update_entry i [(''locked'', JBool (\<not> truthy (getprop current ''locked'')))])
                (\<lambda>_. ret Ok)))
       (\<lambda>err. ret (Fail (reason err)))"

section \<open>Metadata and listing\<close>

text \<open>From \<open>src/unnamed/part_000\<close>.\<close>

definition default_meta :: jsobj where
  "default_meta = [(''courses'', JArr []), (''subjects'', JArr []), (''teachers'', JArr [])]"

definition get_meta :: "jsobj option io" where
  "get_meta = bind request (\<lambda>_ s. (Inr (meta_doc s), s))"

text \<open>
  \<open>snap.data()\<close> of an existing document is an object, hence truthy, so
  \<open>snap.data() || {...}\<close> is the data.
\<close>

definition loadMeta :: "jsobj io" where
  "loadMeta =
     catch
       (bind get_meta (\<lambda>snap.
          case snap of None \<Rightarrow> ret default_meta | Some data \<Rightarrow> ret data))
       (\<lambda>err. ret default_meta)"

text \<open>
  \<open>set(meta, {merge: true})\<close> creates the document when it is absent; otherwise it writes
  the fields that \<open>meta\<close> names and keeps the others. A map inside \<open>meta\<close> is merged into
  the stored map field by field, an empty map and every other value replace what is stored.
\<close>

fun merge_val :: "jsval option \<Rightarrow> jsval \<Rightarrow> jsval"
  and merge_fields :: "jsobj \<Rightarrow> jsobj \<Rightarrow> jsobj" where
  "merge_val old (JObj []) = JObj []"
| "merge_val old (JObj (p # ps)) =
     (case old of
        Some (JObj a) \<Rightarrow> JObj (merge_fields a (p # ps))
      | _ \<Rightarrow> JObj (p # ps))"
| "merge_val old JNull = JNull"
| "merge_val old (JBool b) = JBool b"
| "merge_val old (JNum n) = JNum n"
| "merge_val old (JStr s) = JStr s"
| "merge_val old (JTime a b) = JTime a b"
| "merge_val old (JArr xs) = JArr xs"
| "merge_fields a [] = a"
| "merge_fields a ((k, v) # b) =
     (let a' = merge_fields a b in AList.update k (merge_val (map_of a' k) v) a')"

definition set_meta :: "jsobj \<Rightarrow> unit io" where
  "set_meta meta =
     bind request (\<lambda>_ s.
       (Inr (), s\<lparr>meta_doc :=
          Some (case meta_doc s of None \<Rightarrow> meta | Some d \<Rightarrow> merge_fields d meta)\<rparr>))"

definition saveMeta :: "jsobj \<Rightarrow> result io" where
  "saveMeta meta =
     catch (bind (set_meta meta) (\<lambda>_. ret Ok)) (\<lambda>err. ret (Fail (reason err)))"

text \<open>
  \<open>orderBy('date').orderBy('hour')\<close> returns the documents that have both fields, by date,
  then by hour, then by document id; the plain \<open>get()\<close> returns all documents by id.
\<close>

fun insert_by :: "('a \<Rightarrow> 'a \<Rightarrow> bool) \<Rightarrow> 'a \<Rightarrow> 'a list \<Rightarrow> 'a list" where
  "insert_by le x [] = [x]"
| "insert_by le x (y # ys) = (if le x y then x # y # ys else y # insert_by le x ys)"

definition sort_by :: "('a \<Rightarrow> 'a \<Rightarrow> bool) \<Rightarrow> 'a list \<Rightarrow> 'a list" where
  "sort_by le xs = foldr (insert_by le) xs []"

definition has_date_hour :: "string \<times> jsobj \<Rightarrow> bool" where
  "has_date_hour d \<longleftrightarrow> getprop (snd d) ''date'' \<noteq> None \<and> getprop (snd d) ''hour'' \<noteq> None"

definition value_lt :: "(jsval \<Rightarrow> jsval \<Rightarrow> bool) \<Rightarrow> jsval option \<Rightarrow> jsval option \<Rightarrow> bool" where
  "value_lt le a b = (case (a, b) of (Some x, Some y) \<Rightarrow> le x y \<and> \<not> le y x | _ \<Rightarrow> False)"

definition entry_before ::
  "(jsval \<Rightarrow> jsval \<Rightarrow> bool) \<Rightarrow> string \<times> jsobj \<Rightarrow> string \<times> jsobj \<Rightarrow> bool" where
  "entry_before le d1 d2 =
     (if value_lt le (getprop (snd d1) ''date'') (getprop (snd d2) ''date'') then True
      else if value_lt le (getprop (snd d2) ''date'') (getprop (snd d1) ''date'') then False
      else if value_lt le (getprop (snd d1) ''hour'') (getprop (snd d2) ''hour'') then True
      else if value_lt le (getprop (snd d2) ''hour'') (getprop (snd d1) ''hour'') then False
      else fst d1 \<le> fst d2)"

definition query_ordered :: "(string \<times> jsobj) list io" where
  "query_ordered =
     bind request (\<lambda>_ s.
       (Inr (sort_by (entry_before (value_le s)) (filter has_date_hour (entries s))), s))"

definition query_all :: "(string \<times> jsobj) list io" where
  "query_all = bind request (\<lambda>_ s. (Inr (sort_by (\<lambda>d1 d2. fst d1 \<le> fst d2) (entries s)), s))"

text \<open>\<open>{ id: d.id, ...d.data() }\<close>: a field named \<open>id\<close> in the data takes the place of the document id.\<close>

definition with_id :: "string \<times> jsobj \<Rightarrow> jsobj" where
  "with_id d =
     (''id'', case getprop (snd d) ''id'' of None \<Rightarrow> JStr (fst d) | Some v \<Rightarrow> v) #
     AList.delete ''id'' (snd d)"

definition loadEntries :: "jsobj list io" where
  "loadEntries =
     catch
       (bind query_ordered (\<lambda>docs. ret (map with_id docs)))
       (\<lambda>err.
          catch
            (bind query_all (\<lambda>docs. ret (map with_id docs)))
            (\<lambda>err2. ret []))"

section \<open>Courses and defaults\<close>

text \<open>
  From \<open>src/unnamed/part_000\<close>. Reading a property \<open>v.k\<close> (for a name \<open>k\<close> that is no built-in member) raises a
  \<open>TypeError\<close> on null and gives \<open>undefined\<close> on every value that is not a plain object.
  Calling an array method on a value that is not an array raises a \<open>TypeError\<close>. The
  wording of these messages is the engine's and no result depends on it.
\<close>

fun member :: "jsval \<Rightarrow> string \<Rightarrow> jserr + jsval option" where
  "member JNull k = Inl (JSError ''TypeError'' (''Cannot read properties of null (reading '' @ k @ '')''))"
| "member (JObj fs) k = Inr (getprop fs k)"
| "member v k = Inr None"

fun as_array :: "jsval \<Rightarrow> string \<Rightarrow> jserr + jsval list" where
  "as_array (JArr xs) m = Inr xs"
| "as_array v m = Inl (JSError ''TypeError'' (m @ '' is not a function''))"

text \<open>\<open>v || []\<close>\<close>

definition or_empty :: "jsval option \<Rightarrow> jsval" where
  "or_empty v = (case v of None \<Rightarrow> JArr [] | Some x \<Rightarrow> if truthy (Some x) then x else JArr [])"

definition lift :: "jserr + 'a \<Rightarrow> 'a io" where
  "lift r = (case r of Inl e \<Rightarrow> throw e | Inr x \<Rightarrow> ret x)"

text \<open>\<open>xs.find(x => x.id === courseId)\<close>\<close>

fun find_course :: "jsval list \<Rightarrow> string \<Rightarrow> jserr + jsval option" where
  "find_course [] i = Inr None"
| "find_course (x # xs) i =
     (case member x ''id'' of
        Inl e \<Rightarrow> Inl e
      | Inr v \<Rightarrow> if v = Some (JStr i) then Inr (Some x) else find_course xs i)"

text \<open>\<open>xs.filter(c => c.id !== id)\<close>\<close>

fun filter_courses :: "jsval list \<Rightarrow> string \<Rightarrow> jserr + jsval list" where
  "filter_courses [] i = Inr []"
| "filter_courses (c # cs) i =
     (case member c ''id'' of
        Inl e \<Rightarrow> Inl e
      | Inr v \<Rightarrow>
          (case filter_courses cs i of
             Inl e \<Rightarrow> Inl e
           | Inr kept \<Rightarrow> Inr (if v \<noteq> Some (JStr i) then c # kept else kept)))"

definition getStudentsForCourse :: "string \<Rightarrow> jsval io" where
  "getStudentsForCourse courseId =
     catch
       (bind loadMeta (\<lambda>meta.
        bind (lift (as_array (or_empty (getprop meta ''courses'')) ''find'')) (\<lambda>xs.
        bind (lift (find_course xs courseId)) (\<lambda>c.
          case c of
            None \<Rightarrow> ret (JArr [])
          | Some c \<Rightarrow> bind (lift (member c ''students'')) (\<lambda>v. ret (or_empty v))))))
       (\<lambda>err. ret (JArr []))"

definition empty_slots :: jsval where
  "empty_slots = JArr [JStr [], JStr [], JStr [], JStr [], JStr [], JStr []]"

definition weekdays :: "string list" where
  "weekdays = [''mon'', ''tue'', ''wed'', ''thu'', ''fri'']"

definition default_timetable :: jsval where
  "default_timetable = JObj (map (\<lambda>d. (d, empty_slots)) weekdays)"

text \<open>
  \<open>toUpperCase\<close> is the runtime's; it is a parameter here. The result of \<open>saveMeta\<close> is not
  looked at.
\<close>

definition addCourse :: "(string \<Rightarrow> string) \<Rightarrow> string \<Rightarrow> jsval option \<Rightarrow> result io" where
  "addCourse toUpperCase name students =
     catch
       (bind loadMeta (\<lambda>meta.
          let courses = or_empty (getprop meta ''courses'');
              i = toUpperCase (filter (\<lambda>c. \<not> is_space c) name)
          in
          bind (lift (as_array courses ''find'')) (\<lambda>xs.
          bind (lift (find_course xs i)) (\<lambda>found.
            case found of
              Some _ \<Rightarrow> ret (Fail ''exists'')
            | None \<Rightarrow>
                bind (saveMeta (AList.update ''courses''
                        (JArr (xs @ [JObj [(''id'', JStr i), (''name'', JStr name),
                                           (''students'', or_empty students),
                                           (''timetable'', default_timetable)]]))
                        meta))
                  (\<lambda>_. ret (OkId i))))))
       (\<lambda>err. ret (Fail (reason err)))"

definition deleteCourse :: "string \<Rightarrow> result io" where
  "deleteCourse i =
     catch
       (bind loadMeta (\<lambda>meta.
        bind (lift (as_array (or_empty (getprop meta ''courses'')) ''filter'')) (\<lambda>xs.
        bind (lift (filter_courses xs i)) (\<lambda>kept.
        bind (saveMeta (AList.update ''courses'' (JArr kept) meta)) (\<lambda>_. ret Ok)))))
       (\<lambda>err. ret (Fail (reason err)))"

text \<open>
  \<open>ensureDefaults\<close>, one weekday of one timetable: an array of length 6 stays, another array
  is cut to 6 slots and filled up with empty strings, anything else becomes six empty
  strings. The flag tells whether something was changed.
\<close>

definition fix_day :: "string \<Rightarrow> jsobj \<times> bool \<Rightarrow> jsobj \<times> bool" where
  "fix_day d acc =
     (case getprop (fst acc) d of
        Some (JArr xs) \<Rightarrow>
          if length xs = 6 then acc
          else (AList.update d (JArr (take 6 xs @ replicate (6 - length xs) (JStr []))) (fst acc),
                True)
      | _ \<Rightarrow> (AList.update d empty_slots (fst acc), True))"

text \<open>
  One course. The script is not in strict mode, so an assignment to a property of a
  primitive value is dropped. A property assigned to an array or to a timestamp exists in
  memory only: the database stores an array by its elements and a timestamp by its time.
\<close>

fun fix_course :: "jsval \<Rightarrow> jserr + jsval \<times> bool" where
  "fix_course JNull =
     Inl (JSError ''TypeError'' ''Cannot read properties of null (reading timetable)'')"
| "fix_course (JObj fs) =
     (if \<not> truthy (getprop fs ''timetable'')
      then Inr (JObj (AList.update ''timetable'' default_timetable fs), True)
      else
        (case getprop fs ''timetable'' of
           Some (JObj tfs) \<Rightarrow>
             (case fold fix_day weekdays (tfs, False) of
                (tfs', changed) \<Rightarrow> Inr (JObj (AList.update ''timetable'' (JObj tfs') fs), changed))
         | Some (JArr xs) \<Rightarrow> Inr (JObj fs, True)
         | Some (JTime a b) \<Rightarrow> Inr (JObj fs, True)
         | _ \<Rightarrow> Inl (JSError ''TypeError''
                       ''Cannot read properties of undefined (reading length)'')))"
| "fix_course c = Inr (c, True)"

fun fix_courses :: "jsval list \<Rightarrow> jserr + jsval list \<times> bool" where
  "fix_courses [] = Inr ([], False)"
| "fix_courses (c # cs) =
     (case fix_course c of
        Inl e \<Rightarrow> Inl e
      | Inr (c', changed) \<Rightarrow>
          (case fix_courses cs of
             Inl e \<Rightarrow> Inl e
           | Inr (cs', changed') \<Rightarrow> Inr (c' # cs', changed \<or> changed')))"

text \<open>\<open>if (!meta.f) { meta.f = []; changed = true; }\<close>\<close>

definition ensure_field :: "string \<Rightarrow> jsobj \<times> bool \<Rightarrow> jsobj \<times> bool" where
  "ensure_field f acc =
     (if \<not> truthy (getprop (fst acc) f) then (AList.update f (JArr []) (fst acc), True) else acc)"

definition ensureDefaults :: "result io" where
  "ensureDefaults =
     catch
       (bind loadMeta (\<lambda>meta0.
          case ensure_field ''teachers'' (ensure_field ''subjects''
                 (ensure_field ''courses'' (meta0, False))) of
            (meta, changed) \<Rightarrow>
              bind (lift (as_array (or_empty (getprop meta ''courses'')) ''forEach'')) (\<lambda>cs.
              bind (lift (fix_courses cs)) (\<lambda>fixed.
                if changed \<or> snd fixed
                then bind (saveMeta (AList.update ''courses'' (JArr (fst fixed)) meta)) (\<lambda>_. ret Ok)
                else ret Ok))))
       (\<lambda>err. ret (Fail (reason err)))"

section \<open>The earlier facade with database-generated ids\<close>

text \<open>
  The first version in \<open>storage.firebase.js\<close> updates the document in place whatever the
  new fields are.
\<close>

definition updateEntry_direct :: "string option \<Rightarrow> jsobj \<Rightarrow> result io" where
  "updateEntry_direct oldId data =
     catch
       (case oldId of
          None \<Rightarrow> ret (Fail ''missing id'')
        | Some i \<Rightarrow>
            if i = [] then ret (Fail ''missing id'')
            else bind (get_entry i) (\<lambda>snap.
              case snap of
                None \<Rightarrow> ret (Fail ''not found'')
              | Some current \<Rightarrow>
                  if truthy (getprop current ''locked'') then ret (Fail ''locked'')
                  else bind (update_entry i data) (\<lambda>_. ret Ok)))
       (\<lambda>err. ret (Fail (reason err)))"

section \<open>The seeding facade\<close>

text \<open>
  From \<open>src/unnamed/part_001\<close>. This version runs in strict mode, reports a toggled lock
  as a boolean, has no fallback for the ordered query, and seeds example data.
\<close>

definition toggleLockEntry_seed :: "string \<Rightarrow> bool io" where
  "toggleLockEntry_seed i =
     catch
       (bind (get_entry i) (\<lambda>snap.
          case snap of
            None \<Rightarrow> ret False
          | Some current \<Rightarrow>
              bind (update_entry i [(''locked'', JBool (\<not> truthy (getprop current ''locked'')))])
                (\<lambda>_. ret True)))
       (\<lambda>err. ret False)"

text \<open>\<open>Math.random().toString(36).slice(2, 8)\<close>\<close>

definition draw :: "string io" where
  "draw s = (Inr (random36 s (drawn s)), s\<lparr>drawn := Suc (drawn s)\<rparr>)"

text \<open>
  The normalisation of one course, as \<open>loadMeta\<close> and \<open>ensureDefaults\<close> of this version both
  apply it. In strict mode an assignment to a property of a primitive value raises a
  \<open>TypeError\<close>; a property assigned to an array or to a timestamp exists in memory only.
\<close>

definition norm_course :: "jsval \<Rightarrow> jsval io" where
  "norm_course c =
     (if \<not> truthy (Some c)
      then ret (JObj [(''id'', JStr []), (''name'', JStr []), (''students'', JArr [])])
      else
        (case c of
           JObj fs \<Rightarrow>
             let fs1 = (if \<not> truthy (getprop fs ''students'')
                        then AList.update ''students'' (JArr []) fs else fs)
             in
             if \<not> truthy (getprop fs1 ''id'') then
               (case getprop fs1 ''name'' of
                  None \<Rightarrow>
                    bind draw (\<lambda>r. ret (JObj (AList.update ''id'' (JStr (''kurs_'' @ r)) fs1)))
                | Some n \<Rightarrow>
                    if truthy (Some n) then ret (JObj (AList.update ''id'' n fs1))
                    else bind draw (\<lambda>r. ret (JObj (AList.update ''id'' (JStr (''kurs_'' @ r)) fs1))))
             else ret (JObj fs1)
         | JArr xs \<Rightarrow> bind draw (\<lambda>r. ret c)
         | JTime a b \<Rightarrow> bind draw (\<lambda>r. ret c)
         | _ \<Rightarrow> throw (JSError ''TypeError'' ''Cannot create property students'')))"

fun map_io :: "('a \<Rightarrow> 'b io) \<Rightarrow> 'a list \<Rightarrow> 'b list io" where
  "map_io f [] = ret []"
| "map_io f (x # xs) = bind (f x) (\<lambda>y. bind (map_io f xs) (\<lambda>ys. ret (y # ys)))"

text \<open>
  A list of course names (its first element is a string) is first turned into course
  objects that all carry the document's \<open>students\<close>.
\<close>

definition legacy_courses :: "jsobj \<Rightarrow> jsobj" where
  "legacy_courses data =
     (case getprop data ''courses'' of
        Some (JArr (JStr n # rest)) \<Rightarrow>
          AList.update ''courses''
            (JArr (map (\<lambda>name. JObj [(''id'', name), (''name'', name),
                                        (''students'', or_empty (getprop data ''students''))])
                       (JStr n # rest)))
            data
      | _ \<Rightarrow> data)"

definition loadMeta_seed :: "jsobj io" where
  "loadMeta_seed =
     catch
       (bind get_meta (\<lambda>snap.
          case snap of
            None \<Rightarrow> ret default_meta
          | Some data0 \<Rightarrow>
              let data = legacy_courses data0 in
              bind (lift (as_array (or_empty (getprop data ''courses'')) ''map'')) (\<lambda>xs.
              bind (map_io norm_course xs) (\<lambda>cs.
                ret (AList.update ''courses'' (JArr cs) data)))))
       (\<lambda>err. ret default_meta)"

text \<open>\<open>String(err)\<close>\<close>

fun error_string :: "jserr \<Rightarrow> string" where
  "error_string (JSError name msg) =
     (if name = [] then msg else if msg = [] then name else name @ '': '' @ msg)"

definition saveMeta_seed :: "jsobj \<Rightarrow> result io" where
  "saveMeta_seed meta =
     catch (bind (set_meta meta) (\<lambda>_. ret Ok)) (\<lambda>err. ret (Fail (error_string err)))"

definition loadEntries_seed :: "jsobj list io" where
  "loadEntries_seed =
     catch (bind query_ordered (\<lambda>docs. ret (map with_id docs))) (\<lambda>err. ret [])"

text \<open>\<open>collection.add(doc)\<close> stores the document under an id that the database generates.\<close>

definition add_entry :: "jsobj \<Rightarrow> string io" where
  "add_entry doc =
     bind request (\<lambda>_ s.
       (Inr (gen_id s (gen_count s)),
        s\<lparr>entries := AList.update (gen_id s (gen_count s)) doc (entries s),
          gen_count := Suc (gen_count s)\<rparr>))"

definition seed_meta :: jsobj where
  "seed_meta =
     [(''courses'', JArr [JObj [(''id'', JStr ''RSA261''), (''name'', JStr ''RSA261''),
                                (''students'', JArr [JStr ''Max Mustermann'', JStr ''Anna Beispiel''])]]),
      (''subjects'', JArr [JStr ''Mathematik'', JStr ''Deutsch'', JStr ''Englisch'']),
      (''teachers'', JArr [JStr (''Frau M'' @ [CHR 0xFC] @ ''ller''), JStr ''Herr Schmidt''])]"

definition sample_entry :: "backend \<Rightarrow> jsobj" where
  "sample_entry s =
     [(''course'', JStr ''RSA261''), (''subject'', JStr ''Mathematik''),
      (''teacher'', JStr (''Frau M'' @ [CHR 0xFC] @ ''ller'')),
      (''date'', JStr (today s)), (''hour'', JStr ''1''),
      (''content'', JStr (''Einf'' @ [CHR 0xFC] @ ''hrung (Beispiel)'')),
      (''absences'', JArr []), (''locked'', JBool False),
      (''createdAt'', JTime (fst (server_time s)) (snd (server_time s)))]"

definition nonempty_array :: "jsval option \<Rightarrow> bool" where
  "nonempty_array v = (case v of Some (JArr (x # xs)) \<Rightarrow> True | _ \<Rightarrow> False)"

text \<open>
  \<open>ensureDefaults\<close> of this version, in its two steps: the metadata are seeded when all
  three lists are empty and normalised otherwise, and saved in both cases; then a sample
  entry is added when \<open>loadEntries\<close> returns none.
\<close>

definition seed_metadata :: "jsobj \<Rightarrow> result io" where
  "seed_metadata meta =
     (if \<not> nonempty_array (getprop meta ''courses'') \<and>
         \<not> nonempty_array (getprop meta ''subjects'') \<and>
         \<not> nonempty_array (getprop meta ''teachers'')
      then saveMeta_seed seed_meta
      else
        bind (lift (as_array (or_empty (getprop meta ''courses'')) ''map'')) (\<lambda>xs.
        bind (map_io norm_course xs) (\<lambda>cs.
          saveMeta_seed (AList.update ''courses'' (JArr cs) meta))))"

definition seed_entries :: "unit io" where
  "seed_entries =
     bind loadEntries_seed (\<lambda>es.
       if es = [] then bind (\<lambda>s. add_entry (sample_entry s) s) (\<lambda>_. ret ()) else ret ())"

definition ensureDefaults_seed :: "unit io" where
  "ensureDefaults_seed =
     catch
       (bind loadMeta_seed (\<lambda>meta. bind (seed_metadata meta) (\<lambda>_. seed_entries)))
       (\<lambda>err. ret ())"

section \<open>The operations of the deterministic-key facade\<close>

text \<open>The functions that \<open>window.kbStorage\<close> exposes, and the database after one call.\<close>

datatype operation =
    LoadMeta
  | SaveMeta jsobj
  | LoadEntries
  | AddEntry jsobj
  | UpdateEntry "string option" jsobj
  | DeleteEntryById string
  | ToggleLockEntry string
  | GetStudentsForCourse string
  | AddCourse string "jsval option"
  | DeleteCourse string
  | EnsureDefaults

fun perform :: "(string \<Rightarrow> string) \<Rightarrow> operation \<Rightarrow> backend \<Rightarrow> backend" where
  "perform up LoadMeta s = snd (loadMeta s)"
| "perform up (SaveMeta meta) s = snd (saveMeta meta s)"
| "perform up LoadEntries s = snd (loadEntries s)"
| "perform up (AddEntry entry) s = snd (addEntry entry s)"
| "perform up (UpdateEntry oldId data) s = snd (updateEntry oldId data s)"
| "perform up (DeleteEntryById i) s = snd (deleteEntryById i s)"
| "perform up (ToggleLockEntry i) s = snd (toggleLockEntry i s)"
| "perform up (GetStudentsForCourse i) s = snd (getStudentsForCourse i s)"
| "perform up (AddCourse name students) s = snd (addCourse up name students s)"
| "perform up (DeleteCourse i) s = snd (deleteCourse i s)"
| "perform up EnsureDefaults s = snd (ensureDefaults s)"

section \<open>A small database for concrete runs\<close>

text \<open>
  An empty database whose round trips all resolve, the entry of the example scenario, a
  second entry for the same lesson, an entry for the next lesson, and databases that
  hold them.
\<close>

definition demo_backend :: backend where
  "demo_backend =
     \<lparr>meta_doc = None, entries = [], faults = [], value_le = (\<lambda>a b. True),
      gen_id = (\<lambda>n. ''auto'' @ show_nat n), gen_count = 0,
      random36 = (\<lambda>n. ''r4nd0m''), drawn = 0,
      today = ''2024-05-01'', server_time = (0, 0)\<rparr>"

definition intro_entry :: jsobj where
  "intro_entry =
     [(''course'', JStr ''RSA261''), (''date'', JStr ''2024-05-01''), (''hour'', JStr ''1''),
      (''content'', JStr ''Intro'')]"

definition other_entry :: jsobj where
  "other_entry =
     [(''course'', JStr ''RSA261''), (''date'', JStr ''2024-05-01''), (''hour'', JStr ''1''),
      (''content'', JStr ''Repetition'')]"

definition next_entry :: jsobj where
  "next_entry =
     [(''course'', JStr ''RSA261''), (''date'', JStr ''2024-05-01''), (''hour'', JStr ''2''),
      (''content'', JStr ''Intro'')]"

definition locked_entry :: jsobj where
  "locked_entry = intro_entry @ [(''locked'', JBool True)]"

definition stored_backend :: backend where
  "stored_backend = demo_backend\<lparr>entries := [(''RSA261__2024-05-01__1'', intro_entry)]\<rparr>"

definition locked_backend :: backend where
  "locked_backend = demo_backend\<lparr>entries := [(''RSA261__2024-05-01__1'', locked_entry)]\<rparr>"

definition two_backend :: backend where
  "two_backend =
     demo_backend\<lparr>entries := [(''RSA261__2024-05-01__1'', intro_entry),
                               (''RSA261__2024-05-01__2'', next_entry)]\<rparr>"

definition offline_backend :: backend where
  "offline_backend =
     stored_backend\<lparr>faults := [Some (JSError ''FirebaseError'' ''unavailable''),
                                Some (JSError ''FirebaseError'' ''unavailable'')]\<rparr>"

text \<open>A database whose metadata hold one course without a timetable and nothing else.\<close>

definition course_backend :: backend where
  "course_backend =
     demo_backend\<lparr>meta_doc := Some [(''courses'',
        JArr [JObj [(''id'', JStr ''RSA261''), (''name'', JStr ''RSA261''),
                    (''students'', JArr [])]])]\<rparr>"

text \<open>Whether the next round trip, and the one after it, is rejected.\<close>

definition rejects_first :: "backend \<Rightarrow> bool" where
  "rejects_first s = (case faults s of Some e # fs \<Rightarrow> True | _ \<Rightarrow> False)"

definition rejects_second :: "backend \<Rightarrow> bool" where
  "rejects_second s = (case faults s of x # Some e # fs \<Rightarrow> True | _ \<Rightarrow> False)"

section \<open>Well-formed documents\<close>

text \<open>
  A JavaScript object, and a map of a stored document, has each property name once. For
  the lists that stand for them this is a condition, on the document and on the maps
  nested in its maps (an array is written and read as a whole).
\<close>

fun distinct_keys :: "jsval \<Rightarrow> bool" where
  "distinct_keys (JObj fs) \<longleftrightarrow> distinct (map fst fs) \<and> (\<forall>v \<in> set (map snd fs). distinct_keys v)"
| "distinct_keys v \<longleftrightarrow> True"

definition wf_meta :: "backend \<Rightarrow> bool" where
  "wf_meta s = (case meta_doc s of None \<Rightarrow> True | Some d \<Rightarrow> distinct_keys (JObj d))"

text \<open>
  A course that the normalisation of the seeding facade returns as it is: an object with a
  truthy \<open>students\<close> and a truthy \<open>id\<close>, or an array or a timestamp.
\<close>

fun normal_course :: "jsval \<Rightarrow> bool" where
  "normal_course (JObj fs) \<longleftrightarrow> truthy (getprop fs ''students'') \<and> truthy (getprop fs ''id'')"
| "normal_course (JArr xs) \<longleftrightarrow> True"
| "normal_course (JTime a b) \<longleftrightarrow> True"
| "normal_course v \<longleftrightarrow> False"

text \<open>
  A course after one normalisation: an object with a truthy \<open>students\<close> (its \<open>id\<close> is empty
  when it stands for an empty array element), or an array or a timestamp.
\<close>

fun course_with_students :: "jsval \<Rightarrow> bool" where
  "course_with_students (JObj fs) \<longleftrightarrow> truthy (getprop fs ''students'')"
| "course_with_students (JArr xs) \<longleftrightarrow> True"
| "course_with_students (JTime a b) \<longleftrightarrow> True"
| "course_with_students v \<longleftrightarrow> False"

text \<open>
  A database on which \<open>ensureDefaults\<close> of the seeding facade finds nothing to do: the
  metadata document exists with normal courses, one of its three lists is not empty, and
  the ordered query finds an entry.
\<close>

definition settled :: "backend \<Rightarrow> bool" where
  "settled s \<longleftrightarrow>
     faults s = [] \<and>
     (\<exists>meta cs. meta_doc s = Some meta \<and> distinct_keys (JObj meta) \<and>
        getprop meta ''courses'' = Some (JArr cs) \<and> list_all normal_course cs \<and>
        (cs \<noteq> [] \<or> nonempty_array (getprop meta ''subjects'') \<or>
         nonempty_array (getprop meta ''teachers''))) \<and>
     filter has_date_hour (entries s) \<noteq> []"

section \<open>Basic facts about the database calls\<close>

lemma request_healthy: "faults s = [] \<Longrightarrow> request s = (Inr (), s)"
  by (simp add: request_def)

lemma get_entry_healthy: "faults s = [] \<Longrightarrow> get_entry i s = (Inr (map_of (entries s) i), s)"
  by (simp add: get_entry_def bind_def request_healthy)

lemma update_entry_healthy:
  "faults s = [] \<Longrightarrow> map_of (entries s) i = Some cur \<Longrightarrow>
   update_entry i data s =
     (Inr (), s\<lparr>entries := AList.update i (AList.merge cur data) (entries s)\<rparr>)"
  by (simp add: update_entry_def bind_def request_healthy)

lemma runTransaction_healthy:
  "faults s = [] \<Longrightarrow>
   runTransaction body s =
     (Inr (fst (body (entries s))),
      s\<lparr>entries := fold apply_write (snd (body (entries s))) (entries s)\<rparr>)"
  by (simp add: runTransaction_def bind_def request_healthy split: prod.splits)

text \<open>Whatever its outcome, a round trip by itself changes neither collection.\<close>

lemma request_cases:
  "(\<exists>e s'. request s = (Inl e, s') \<and> entries s' = entries s \<and> meta_doc s' = meta_doc s) \<or>
   (\<exists>s'. request s = (Inr (), s') \<and> entries s' = entries s \<and> meta_doc s' = meta_doc s)"
  by (auto simp: request_def split: list.splits option.splits)

lemma get_entry_cases:
  "(\<exists>e s'. get_entry i s = (Inl e, s') \<and> entries s' = entries s \<and> meta_doc s' = meta_doc s) \<or>
   (\<exists>s'. get_entry i s = (Inr (map_of (entries s) i), s') \<and> entries s' = entries s \<and>
          meta_doc s' = meta_doc s)"
  by (auto simp: get_entry_def bind_def request_def split: list.splits option.splits)

lemma update_entry_cases:
  "(\<exists>e s'. update_entry j data s = (Inl e, s') \<and> entries s' = entries s) \<or>
   (\<exists>s' cur. update_entry j data s = (Inr (), s') \<and> map_of (entries s) j = Some cur \<and>
          entries s' = AList.update j (AList.merge cur data) (entries s))"
  using request_cases [of s]
  by (auto simp: update_entry_def bind_def split: option.splits)

lemma delete_entry_cases:
  "(\<exists>e s'. delete_entry j s = (Inl e, s') \<and> entries s' = entries s) \<or>
   (\<exists>s'. delete_entry j s = (Inr (), s') \<and> entries s' = AList.delete j (entries s))"
  using request_cases [of s]
  by (auto simp: delete_entry_def bind_def)

text \<open>A transaction applies all of its writes or none.\<close>

lemma runTransaction_cases:
  "(\<exists>e s'. runTransaction body s = (Inl e, s') \<and> entries s' = entries s \<and>
            meta_doc s' = meta_doc s) \<or>
   (\<exists>s'. runTransaction body s = (Inr (fst (body (entries s))), s') \<and>
          entries s' = fold apply_write (snd (body (entries s))) (entries s) \<and>
          meta_doc s' = meta_doc s)"
  using request_cases [of s]
  by (auto simp: runTransaction_def bind_def split: prod.splits)

lemma merge_single: "AList.merge d [(k, v)] = AList.update k v d"
  by (simp add: AList.merge_def)

subsection \<open>Ids\<close>

lemma same_key_same_id:
  "getprop e2 ''course'' = getprop e1 ''course'' \<Longrightarrow>
   getprop e2 ''date'' = getprop e1 ''date'' \<Longrightarrow>
   getprop e2 ''hour'' = getprop e1 ''hour'' \<Longrightarrow> makeEntryId e2 = makeEntryId e1"
  by (simp add: makeEntryId_def)

lemma makeEntryId_nonempty: "makeEntryId e \<noteq> []"
  by (simp add: makeEntryId_def)

lemma intro_entry_id: "makeEntryId intro_entry = ''RSA261__2024-05-01__1''"
  by (simp add: intro_entry_def makeEntryId_def safe_def getprop_def trim_def is_space_def
      id_char_def)

lemma other_entry_id: "makeEntryId other_entry = ''RSA261__2024-05-01__1''"
  by (simp add: other_entry_def makeEntryId_def safe_def getprop_def trim_def is_space_def
      id_char_def)

lemma next_entry_id: "makeEntryId next_entry = ''RSA261__2024-05-01__2''"
  by (simp add: next_entry_def makeEntryId_def safe_def getprop_def trim_def is_space_def
      id_char_def)

lemma content_only_id: "makeEntryId [(''content'', JStr ''x'')] = ''____''"
  by (simp add: makeEntryId_def safe_def getprop_def trim_def)

section \<open>Adding an entry\<close>

lemma addEntry_fresh:
  "faults s = [] \<Longrightarrow> map_of (entries s) (makeEntryId e) = None \<Longrightarrow>
   addEntry e s =
     (Inr (OkId (makeEntryId e)), s\<lparr>entries := AList.update (makeEntryId e) e (entries s)\<rparr>)"
  by (simp add: addEntry_def catch_def Let_def runTransaction_healthy)

lemma addEntry_taken:
  "faults s = [] \<Longrightarrow> map_of (entries s) (makeEntryId e) = Some d \<Longrightarrow>
   addEntry e s = (Inr (Fail ''duplicate''), s)"
  by (simp add: addEntry_def catch_def Let_def runTransaction_healthy)

text \<open>
  Claim C1. Let two entries have the same course, date and hour, let no entry be stored
  under their id, and let the database answer every round trip. Then the first
  \<open>addEntry\<close> succeeds with the derived id and stores its entry verbatim under it, and
  the second \<open>addEntry\<close> returns \<open>{ok: false, reason: 'duplicate'}\<close> and leaves the
  database, with the entry of the first call, as it is. As long as an entry is stored
  under that id, every further \<open>addEntry\<close> for the key fails in the same way.
\<close>

theorem addEntry_once_per_key:
  assumes healthy: "faults s = []"
    and key: "getprop e2 ''course'' = getprop e1 ''course''"
      "getprop e2 ''date'' = getprop e1 ''date''"
      "getprop e2 ''hour'' = getprop e1 ''hour''"
    and fresh: "map_of (entries s) (makeEntryId e1) = None"
  shows "(let s1 = s\<lparr>entries := AList.update (makeEntryId e1) e1 (entries s)\<rparr> in
          addEntry e1 s = (Inr (OkId (makeEntryId e1)), s1) \<and>
          map_of (entries s1) (makeEntryId e1) = Some e1 \<and>
          addEntry e2 s1 = (Inr (Fail ''duplicate''), s1) \<and>
          (\<forall>t d. faults t = [] \<and> map_of (entries t) (makeEntryId e1) = Some d \<longrightarrow>
             addEntry e2 t = (Inr (Fail ''duplicate''), t)))"
proof -
  define s1 where "s1 = s\<lparr>entries := AList.update (makeEntryId e1) e1 (entries s)\<rparr>"
  have i: "makeEntryId e2 = makeEntryId e1"
    using key by (rule same_key_same_id)
  have first: "addEntry e1 s = (Inr (OkId (makeEntryId e1)), s1)"
    unfolding s1_def using healthy fresh by (rule addEntry_fresh)
  have stored: "map_of (entries s1) (makeEntryId e1) = Some e1"
    by (simp add: s1_def update_conv')
  have "faults s1 = []"
    by (simp add: s1_def healthy)
  then have second: "addEntry e2 s1 = (Inr (Fail ''duplicate''), s1)"
    using stored i addEntry_taken [of s1 e2 e1] by simp
  have later: "\<forall>t d. faults t = [] \<and> map_of (entries t) (makeEntryId e1) = Some d \<longrightarrow>
      addEntry e2 t = (Inr (Fail ''duplicate''), t)"
    using i addEntry_taken [of _ e2] by simp
  from first stored second later show ?thesis
    unfolding Let_def s1_def by blast
qed

theorem addEntry_once_per_key_witness:
  "faults demo_backend = [] \<and>
   getprop other_entry ''course'' = getprop intro_entry ''course'' \<and>
   getprop other_entry ''date'' = getprop intro_entry ''date'' \<and>
   getprop other_entry ''hour'' = getprop intro_entry ''hour'' \<and>
   map_of (entries demo_backend) (makeEntryId intro_entry) = None \<and>
   addEntry intro_entry demo_backend = (Inr (OkId ''RSA261__2024-05-01__1''), stored_backend) \<and>
   addEntry other_entry stored_backend = (Inr (Fail ''duplicate''), stored_backend)"
proof -
  have h: "faults demo_backend = []"
    "map_of (entries demo_backend) (makeEntryId intro_entry) = None"
    by (simp_all add: demo_backend_def)
  have k: "getprop other_entry ''course'' = getprop intro_entry ''course''"
    "getprop other_entry ''date'' = getprop intro_entry ''date''"
    "getprop other_entry ''hour'' = getprop intro_entry ''hour''"
    by (simp_all add: other_entry_def intro_entry_def getprop_def)
  have e: "entries demo_backend = []"
    by (simp add: demo_backend_def)
  have r: "addEntry intro_entry demo_backend =
      (Inr (OkId (makeEntryId intro_entry)),
       demo_backend\<lparr>entries :=
         AList.update (makeEntryId intro_entry) intro_entry (entries demo_backend)\<rparr>)"
    "addEntry other_entry (demo_backend\<lparr>entries :=
         AList.update (makeEntryId intro_entry) intro_entry (entries demo_backend)\<rparr>) =
      (Inr (Fail ''duplicate''),
       demo_backend\<lparr>entries :=
         AList.update (makeEntryId intro_entry) intro_entry (entries demo_backend)\<rparr>)"
    using addEntry_once_per_key [OF h(1) k h(2)] unfolding Let_def by blast+
  show ?thesis
    using r h k by (simp add: intro_entry_id e stored_backend_def)
qed

text \<open>
  Claim C9. The courses \<open>'A B'\<close> and \<open>'A_B'\<close> differ, but with the same date and hour they
  give the same document id; after \<open>addEntry\<close> has stored the first of the two entries,
  \<open>addEntry\<close> of the second returns \<open>{ok: false, reason: 'duplicate'}\<close>.
\<close>

theorem makeEntryId_not_injective:
  "getprop [(''course'', JStr ''A B''), (''date'', JStr ''2024-05-01''), (''hour'', JStr ''1'')]
     ''course'' \<noteq>
   getprop [(''course'', JStr ''A_B''), (''date'', JStr ''2024-05-01''), (''hour'', JStr ''1'')]
     ''course'' \<and>
   makeEntryId [(''course'', JStr ''A B''), (''date'', JStr ''2024-05-01''), (''hour'', JStr ''1'')] =
   makeEntryId [(''course'', JStr ''A_B''), (''date'', JStr ''2024-05-01''), (''hour'', JStr ''1'')] \<and>
   addEntry [(''course'', JStr ''A B''), (''date'', JStr ''2024-05-01''), (''hour'', JStr ''1'')]
       demo_backend =
     (Inr (OkId ''A_B__2024-05-01__1''),
      demo_backend\<lparr>entries := [(''A_B__2024-05-01__1'',
         [(''course'', JStr ''A B''), (''date'', JStr ''2024-05-01''), (''hour'', JStr ''1'')])]\<rparr>) \<and>
   addEntry [(''course'', JStr ''A_B''), (''date'', JStr ''2024-05-01''), (''hour'', JStr ''1'')]
       (demo_backend\<lparr>entries := [(''A_B__2024-05-01__1'',
         [(''course'', JStr ''A B''), (''date'', JStr ''2024-05-01''), (''hour'', JStr ''1'')])]\<rparr>) =
     (Inr (Fail ''duplicate''),
      demo_backend\<lparr>entries := [(''A_B__2024-05-01__1'',
         [(''course'', JStr ''A B''), (''date'', JStr ''2024-05-01''), (''hour'', JStr ''1'')])]\<rparr>)"
proof -
  have a: "makeEntryId [(''course'', JStr ''A B''), (''date'', JStr ''2024-05-01''),
      (''hour'', JStr ''1'')] = ''A_B__2024-05-01__1''"
    by (simp add: makeEntryId_def safe_def getprop_def trim_def is_space_def id_char_def)
  have b: "makeEntryId [(''course'', JStr ''A_B''), (''date'', JStr ''2024-05-01''),
      (''hour'', JStr ''1'')] = ''A_B__2024-05-01__1''"
    by (simp add: makeEntryId_def safe_def getprop_def trim_def is_space_def id_char_def)
  show ?thesis
    by (simp add: a b getprop_def addEntry_def catch_def Let_def runTransaction_healthy
        demo_backend_def)
qed

section \<open>Updating an entry\<close>

text \<open>\<open>updateEntry\<close> of an unlocked entry on a database that answers every round trip.\<close>

lemma updateEntry_healthy:
  assumes "faults s = []" "i \<noteq> []" "map_of (entries s) i = Some cur"
    "\<not> truthy (getprop cur ''locked'')"
  shows "updateEntry (Some i) data s =
    (if makeEntryId data = i
     then (Inr Ok, s\<lparr>entries := AList.update i (AList.merge cur data) (entries s)\<rparr>)
     else if map_of (entries s) (makeEntryId data) \<noteq> None
     then (Inr (Fail ''duplicate_target''), s)
     else (Inr (OkId (makeEntryId data)),
           s\<lparr>entries := AList.delete i
               (AList.update (makeEntryId data) (AList.merge cur data) (entries s))\<rparr>))"
  using assms
  by (auto simp: updateEntry_def catch_def bind_def ret_def Let_def get_entry_healthy
      update_entry_healthy runTransaction_healthy)

lemma updateEntry_locked:
  assumes "faults s = []" "i \<noteq> []" "map_of (entries s) i = Some d"
    "truthy (getprop d ''locked'')"
  shows "updateEntry (Some i) data s = (Inr (Fail ''locked''), s)"
  using assms by (simp add: updateEntry_def catch_def bind_def ret_def get_entry_healthy)

lemma updateEntry_direct_locked:
  assumes "faults s = []" "i \<noteq> []" "map_of (entries s) i = Some d"
    "truthy (getprop d ''locked'')"
  shows "updateEntry_direct (Some i) data s = (Inr (Fail ''locked''), s)"
  using assms
  by (simp add: updateEntry_direct_def catch_def bind_def ret_def get_entry_healthy)

text \<open>
  Claim C5. \<open>updateEntry\<close> without an id, or with the empty id, fails with
  \<open>'missing id'\<close>. For an id under which no entry is stored it writes nothing, whatever
  the database answers, and fails with \<open>'not found'\<close> when the read is answered. For an
  entry whose \<open>locked\<close> flag is true it fails with \<open>'locked'\<close>.
\<close>

theorem updateEntry_guards:
  "(oldId = None \<or> oldId = Some [] \<longrightarrow>
      updateEntry oldId data s = (Inr (Fail ''missing id''), s)) \<and>
   (i \<noteq> [] \<and> map_of (entries s) i = None \<longrightarrow>
      entries (snd (updateEntry (Some i) data s)) = entries s \<and>
      meta_doc (snd (updateEntry (Some i) data s)) = meta_doc s \<and>
      (faults s = [] \<longrightarrow> updateEntry (Some i) data s = (Inr (Fail ''not found''), s))) \<and>
   (i \<noteq> [] \<and> faults s = [] \<and> map_of (entries s) i = Some cur \<and>
    getprop cur ''locked'' = Some (JBool True) \<longrightarrow>
      updateEntry (Some i) data s = (Inr (Fail ''locked''), s))"
proof (intro conjI impI)
  assume "oldId = None \<or> oldId = Some []"
  then show "updateEntry oldId data s = (Inr (Fail ''missing id''), s)"
    by (auto simp: updateEntry_def catch_def ret_def)
next
  assume a: "i \<noteq> [] \<and> map_of (entries s) i = None"
  from get_entry_cases [of i s] a
  show "entries (snd (updateEntry (Some i) data s)) = entries s"
    by (auto simp: updateEntry_def catch_def bind_def ret_def)
  from get_entry_cases [of i s] a
  show "meta_doc (snd (updateEntry (Some i) data s)) = meta_doc s"
    by (auto simp: updateEntry_def catch_def bind_def ret_def)
  assume "faults s = []"
  with a show "updateEntry (Some i) data s = (Inr (Fail ''not found''), s)"
    by (simp add: updateEntry_def catch_def bind_def ret_def get_entry_healthy)
next
  assume "i \<noteq> [] \<and> faults s = [] \<and> map_of (entries s) i = Some cur \<and>
    getprop cur ''locked'' = Some (JBool True)"
  then show "updateEntry (Some i) data s = (Inr (Fail ''locked''), s)"
    by (simp add: updateEntry_locked)
qed

theorem updateEntry_guards_witness:
  "updateEntry None [(''content'', JStr ''x'')] demo_backend =
     (Inr (Fail ''missing id''), demo_backend) \<and>
   updateEntry (Some ''RSA261__2024-05-01__1'') [(''content'', JStr ''x'')] demo_backend =
     (Inr (Fail ''not found''), demo_backend) \<and>
   updateEntry (Some ''RSA261__2024-05-01__1'') [(''content'', JStr ''x'')] locked_backend =
     (Inr (Fail ''locked''), locked_backend)"
proof -
  have h: "''RSA261__2024-05-01__1'' \<noteq> []" "faults demo_backend = []"
    "map_of (entries demo_backend) ''RSA261__2024-05-01__1'' = None"
    "faults locked_backend = []"
    "map_of (entries locked_backend) ''RSA261__2024-05-01__1'' = Some locked_entry"
    "getprop locked_entry ''locked'' = Some (JBool True)"
    by (simp_all add: demo_backend_def locked_backend_def locked_entry_def intro_entry_def
        getprop_def)
  show ?thesis
    using h
      updateEntry_guards [of None "[(''content'', JStr ''x'')]" demo_backend
        "''RSA261__2024-05-01__1''" locked_entry]
      updateEntry_guards [of None "[(''content'', JStr ''x'')]" locked_backend
        "''RSA261__2024-05-01__1''" locked_entry]
    by blast
qed

text \<open>When the new fields derive the entry's own id, the update is made in place.\<close>

lemma updateEntry_same_id_direct:
  assumes "faults s = []"
    and "map_of (entries s) i = Some cur"
    and "\<not> truthy (getprop cur ''locked'')"
    and "makeEntryId data = i"
  shows "updateEntry (Some i) data s =
           (Inr Ok, s\<lparr>entries := AList.update i (AList.merge cur data) (entries s)\<rparr>)"
  using assms makeEntryId_nonempty [of data] updateEntry_healthy [of s i cur data]
  by auto

text \<open>
  Claim C4, the code at a failing input. The claim asks for a direct update whenever the
  new fields leave course, date and hour as they are. The code derives the new id from
  the new fields alone. The entry of the example scenario is stored, unlocked, under
  its derived id; \<open>updateEntry(id, {content: 'x'})\<close> leaves its course, date and hour as
  they are, and the version that updates in place does set \<open>content\<close> in the document
  under that id. The renaming version derives the id \<open>____\<close> from the new fields, takes
  the rename path and returns \<open>{ok: true, id: '____'}\<close>: the document is created under
  \<open>____\<close> and deleted under its own id. After that \<open>addEntry\<close> for the same course,
  date and hour succeeds a second time.
\<close>

theorem updateEntry_content_only_moves_entry:
  "faults stored_backend = [] \<and>
   map_of (entries stored_backend) ''RSA261__2024-05-01__1'' = Some intro_entry \<and>
   \<not> truthy (getprop intro_entry ''locked'') \<and>
   makeEntryId intro_entry = ''RSA261__2024-05-01__1'' \<and>
   getprop (AList.merge intro_entry [(''content'', JStr ''x'')]) ''course'' =
     getprop intro_entry ''course'' \<and>
   getprop (AList.merge intro_entry [(''content'', JStr ''x'')]) ''date'' =
     getprop intro_entry ''date'' \<and>
   getprop (AList.merge intro_entry [(''content'', JStr ''x'')]) ''hour'' =
     getprop intro_entry ''hour'' \<and>
   updateEntry_direct (Some ''RSA261__2024-05-01__1'') [(''content'', JStr ''x'')]
       stored_backend =
     (Inr Ok,
      demo_backend\<lparr>entries := [(''RSA261__2024-05-01__1'',
        [(''course'', JStr ''RSA261''), (''date'', JStr ''2024-05-01''), (''hour'', JStr ''1''),
         (''content'', JStr ''x'')])]\<rparr>) \<and>
   updateEntry (Some ''RSA261__2024-05-01__1'') [(''content'', JStr ''x'')] stored_backend =
     (Inr (OkId ''____''),
      demo_backend\<lparr>entries := [(''____'',
        [(''course'', JStr ''RSA261''), (''date'', JStr ''2024-05-01''), (''hour'', JStr ''1''),
         (''content'', JStr ''x'')])]\<rparr>) \<and>
   map_of (entries (snd (updateEntry (Some ''RSA261__2024-05-01__1'')
       [(''content'', JStr ''x'')] stored_backend))) ''RSA261__2024-05-01__1'' = None \<and>
   fst (addEntry intro_entry (snd (updateEntry (Some ''RSA261__2024-05-01__1'')
       [(''content'', JStr ''x'')] stored_backend))) = Inr (OkId ''RSA261__2024-05-01__1'')"
proof -
  have u: "updateEntry (Some ''RSA261__2024-05-01__1'') [(''content'', JStr ''x'')] stored_backend =
     (Inr (OkId ''____''),
      demo_backend\<lparr>entries := [(''____'',
        [(''course'', JStr ''RSA261''), (''date'', JStr ''2024-05-01''), (''hour'', JStr ''1''),
         (''content'', JStr ''x'')])]\<rparr>)"
    by (simp add: updateEntry_def catch_def bind_def ret_def Let_def content_only_id
        get_entry_healthy runTransaction_healthy stored_backend_def demo_backend_def
        intro_entry_def getprop_def)
  have v: "updateEntry_direct (Some ''RSA261__2024-05-01__1'') [(''content'', JStr ''x'')]
       stored_backend =
     (Inr Ok,
      demo_backend\<lparr>entries := [(''RSA261__2024-05-01__1'',
        [(''course'', JStr ''RSA261''), (''date'', JStr ''2024-05-01''), (''hour'', JStr ''1''),
         (''content'', JStr ''x'')])]\<rparr>)"
    by (simp add: updateEntry_direct_def catch_def bind_def ret_def get_entry_healthy
        update_entry_healthy stored_backend_def demo_backend_def intro_entry_def getprop_def
        merge_single)
  have a: "fst (addEntry intro_entry
      (demo_backend\<lparr>entries := [(''____'',
        [(''course'', JStr ''RSA261''), (''date'', JStr ''2024-05-01''), (''hour'', JStr ''1''),
         (''content'', JStr ''x'')])]\<rparr>)) = Inr (OkId ''RSA261__2024-05-01__1'')"
    by (simp add: addEntry_def catch_def Let_def runTransaction_healthy intro_entry_id
        demo_backend_def)
  have s: "faults stored_backend = []"
    "map_of (entries stored_backend) ''RSA261__2024-05-01__1'' = Some intro_entry"
    by (simp_all add: stored_backend_def demo_backend_def)
  have k: "\<not> truthy (getprop intro_entry ''locked'')"
    "getprop (AList.merge intro_entry [(''content'', JStr ''x'')]) ''course'' =
       getprop intro_entry ''course''"
    "getprop (AList.merge intro_entry [(''content'', JStr ''x'')]) ''date'' =
       getprop intro_entry ''date''"
    "getprop (AList.merge intro_entry [(''content'', JStr ''x'')]) ''hour'' =
       getprop intro_entry ''hour''"
    by (simp_all add: intro_entry_def getprop_def)
  show ?thesis
    unfolding u v using s k a intro_entry_id by simp
qed

text \<open>A rename changes the collection by both of its writes or not at all.\<close>

lemma updateEntry_rename_all_or_nothing:
  assumes "makeEntryId data \<noteq> i"
  shows "(entries (snd (updateEntry (Some i) data s)) = entries s \<and>
          (\<forall>r. fst (updateEntry (Some i) data s) \<noteq> Inr (OkId r)) \<and>
          fst (updateEntry (Some i) data s) \<noteq> Inr Ok) \<or>
         (\<exists>old. map_of (entries s) i = Some old \<and>
            map_of (entries s) (makeEntryId data) = None \<and>
            fst (updateEntry (Some i) data s) = Inr (OkId (makeEntryId data)) \<and>
            entries (snd (updateEntry (Some i) data s)) =
              AList.delete i (AList.update (makeEntryId data) (AList.merge old data) (entries s)))"
proof (cases "i = []")
  case True
  then show ?thesis
    by (simp add: updateEntry_def catch_def ret_def)
next
  case False
  from get_entry_cases [of i s] show ?thesis
  proof (elim disjE exE conjE)
    fix e s'
    assume "get_entry i s = (Inl e, s')" "entries s' = entries s"
    then show ?thesis
      using False by (simp add: updateEntry_def catch_def bind_def ret_def)
  next
    fix s'
    assume g: "get_entry i s = (Inr (map_of (entries s) i), s')" and e: "entries s' = entries s"
    show ?thesis
    proof (cases "map_of (entries s) i")
      case None
      then show ?thesis
        using False g e by (simp add: updateEntry_def catch_def bind_def ret_def)
    next
      case (Some cur)
      show ?thesis
      proof (cases "truthy (getprop cur ''locked'')")
        case True
        then show ?thesis
          using False g e Some by (simp add: updateEntry_def catch_def bind_def ret_def)
      next
        case unlocked: False
        let ?body = "\<lambda>docs. case map_of docs (makeEntryId data) of
                          Some _ \<Rightarrow> (Fail ''duplicate_target'', [])
                        | None \<Rightarrow>
                            (case map_of docs i of
                               None \<Rightarrow> (Fail ''not_found_during_tx'', [])
                             | Some oldData \<Rightarrow>
                                 if truthy (getprop oldData ''locked'') then (Fail ''locked'', [])
                                 else (OkId (makeEntryId data),
                                       [TxSet (makeEntryId data) (AList.merge oldData data),
                                        TxDelete i]))"
        have u: "updateEntry (Some i) data s =
            (case runTransaction ?body s' of
               (Inl e, t) \<Rightarrow> (Inr (Fail (reason e)), t)
             | (Inr x, t) \<Rightarrow> (Inr x, t))"
          using False g Some unlocked assms
          by (simp add: updateEntry_def catch_def bind_def ret_def Let_def
              split: prod.splits sum.splits)
        from runTransaction_cases [of ?body s'] show ?thesis
        proof (elim disjE exE conjE)
          fix e t
          assume "runTransaction ?body s' = (Inl e, t)" "entries t = entries s'"
          then show ?thesis
            using u e by simp
        next
          fix t
          assume r: "runTransaction ?body s' = (Inr (fst (?body (entries s'))), t)"
            and w: "entries t = fold apply_write (snd (?body (entries s'))) (entries s')"
          show ?thesis
          proof (cases "map_of (entries s) (makeEntryId data)")
            case None
            then show ?thesis
              using u r w e Some unlocked by simp
          next
            case (Some tgt)
            then show ?thesis
              using u r w e by simp
          qed
        qed
      qed
    qed
  qed
qed

text \<open>
  Claim C2. Let the new fields derive an id other than the entry's. If another entry is
  stored under that id (and the database answers, the source entry exists and is not
  locked), \<open>updateEntry\<close> fails with \<open>'duplicate_target'\<close> and the database, with source
  and target, is unchanged. Whatever the database answers, the call either leaves the
  collection as it was and reports no success, or it has created the document under the
  new id and deleted the one under the old id, both, and reports the new id.
\<close>

theorem updateEntry_rename_atomic:
  assumes rename: "makeEntryId data \<noteq> i"
  shows "(faults s = [] \<and> i \<noteq> [] \<and> map_of (entries s) i = Some cur \<and>
          \<not> truthy (getprop cur ''locked'') \<and>
          map_of (entries s) (makeEntryId data) = Some tgt \<longrightarrow>
            updateEntry (Some i) data s = (Inr (Fail ''duplicate_target''), s)) \<and>
         ((entries (snd (updateEntry (Some i) data s)) = entries s \<and>
           (\<forall>r. fst (updateEntry (Some i) data s) \<noteq> Inr (OkId r)) \<and>
           fst (updateEntry (Some i) data s) \<noteq> Inr Ok) \<or>
          (\<exists>old. map_of (entries s) i = Some old \<and>
             map_of (entries s) (makeEntryId data) = None \<and>
             fst (updateEntry (Some i) data s) = Inr (OkId (makeEntryId data)) \<and>
             entries (snd (updateEntry (Some i) data s)) =
               AList.delete i
                 (AList.update (makeEntryId data) (AList.merge old data) (entries s))))"
proof -
  have "updateEntry (Some i) data s = (Inr (Fail ''duplicate_target''), s)"
    if "faults s = []" "i \<noteq> []" "map_of (entries s) i = Some cur"
      "\<not> truthy (getprop cur ''locked'')" "map_of (entries s) (makeEntryId data) = Some tgt"
    using updateEntry_healthy [OF that(1-4), of data] that(5) rename by simp
  with updateEntry_rename_all_or_nothing [OF rename, of s] show ?thesis
    by blast
qed

theorem updateEntry_rename_atomic_witness:
  "makeEntryId other_entry \<noteq> ''RSA261__2024-05-01__2'' \<and>
   map_of (entries two_backend) ''RSA261__2024-05-01__2'' = Some next_entry \<and>
   map_of (entries two_backend) (makeEntryId other_entry) = Some intro_entry \<and>
   updateEntry (Some ''RSA261__2024-05-01__2'') other_entry two_backend =
     (Inr (Fail ''duplicate_target''), two_backend)"
proof -
  have r: "makeEntryId other_entry \<noteq> ''RSA261__2024-05-01__2''"
    by (simp add: other_entry_id)
  have h: "faults two_backend = []" "''RSA261__2024-05-01__2'' \<noteq> []"
    "map_of (entries two_backend) ''RSA261__2024-05-01__2'' = Some next_entry"
    "\<not> truthy (getprop next_entry ''locked'')"
    "map_of (entries two_backend) (makeEntryId other_entry) = Some intro_entry"
    by (simp_all add: two_backend_def demo_backend_def next_entry_def getprop_def other_entry_id)
  show ?thesis
    using updateEntry_rename_atomic [OF r, of two_backend next_entry intro_entry] r h
    by blast
qed

section \<open>Toggling the lock\<close>

lemma toggleLockEntry_healthy:
  assumes "faults s = []" "map_of (entries s) i = Some d"
  shows "toggleLockEntry i s =
    (Inr Ok, s\<lparr>entries := AList.update i
        (AList.update ''locked'' (JBool (\<not> truthy (getprop d ''locked''))) d) (entries s)\<rparr>)"
  using assms
  by (simp add: toggleLockEntry_def catch_def bind_def ret_def get_entry_healthy
      update_entry_healthy merge_single)

lemma toggleLockEntry_seed_healthy:
  assumes "faults s = []" "map_of (entries s) i = Some d"
  shows "toggleLockEntry_seed i s =
    (Inr True, s\<lparr>entries := AList.update i
        (AList.update ''locked'' (JBool (\<not> truthy (getprop d ''locked''))) d) (entries s)\<rparr>)"
  using assms
  by (simp add: toggleLockEntry_seed_def catch_def bind_def ret_def get_entry_healthy
      update_entry_healthy merge_single)

text \<open>
  Both versions of \<open>toggleLockEntry\<close> write the same document; the facts about one and
  about two toggles are stated for a function \<open>toggle\<close> that does so.
\<close>

lemma toggle_twice:
  assumes t: "\<And>s d. faults s = [] \<Longrightarrow> map_of (entries s) i = Some d \<Longrightarrow>
      snd (toggle s) = s\<lparr>entries := AList.update i
        (AList.update ''locked'' (JBool (\<not> truthy (getprop d ''locked''))) d) (entries s)\<rparr>"
    and healthy: "faults s = []" and stored: "map_of (entries s) i = Some d"
  shows "\<exists>d1 d2.
      map_of (entries (snd (toggle s))) i = Some d1 \<and>
      map_of (entries (snd (toggle (snd (toggle s))))) i = Some d2 \<and>
      getprop d1 ''locked'' = Some (JBool (\<not> truthy (getprop d ''locked''))) \<and>
      truthy (getprop d2 ''locked'') = truthy (getprop d ''locked'') \<and>
      (\<forall>k. k \<noteq> ''locked'' \<longrightarrow> getprop d1 k = getprop d k \<and> getprop d2 k = getprop d k) \<and>
      (\<forall>j. j \<noteq> i \<longrightarrow> map_of (entries (snd (toggle (snd (toggle s))))) j = map_of (entries s) j) \<and>
      (\<forall>b. getprop d ''locked'' = Some (JBool b) \<longrightarrow> snd (toggle (snd (toggle s))) = s)"
proof -
  define d1 where "d1 = AList.update ''locked'' (JBool (\<not> truthy (getprop d ''locked''))) d"
  define d2 where "d2 = AList.update ''locked'' (JBool (\<not> truthy (getprop d1 ''locked''))) d1"
  define s1 where "s1 = s\<lparr>entries := AList.update i d1 (entries s)\<rparr>"
  have s1: "snd (toggle s) = s1"
    using t [OF healthy stored] by (simp add: s1_def d1_def)
  have h1: "faults s1 = []" "map_of (entries s1) i = Some d1"
    using healthy by (simp_all add: s1_def update_conv')
  have s2: "snd (toggle s1) = s\<lparr>entries := AList.update i d2 (entries s)\<rparr>"
    using t [OF h1] by (simp add: s1_def d2_def)
  have l1: "getprop d1 ''locked'' = Some (JBool (\<not> truthy (getprop d ''locked'')))"
    by (simp add: d1_def getprop_def update_conv')
  have l2: "truthy (getprop d2 ''locked'') = truthy (getprop d ''locked'')"
    using l1 by (simp add: d2_def getprop_def update_conv')
  have o: "\<forall>k. k \<noteq> ''locked'' \<longrightarrow> getprop d1 k = getprop d k \<and> getprop d2 k = getprop d k"
    by (simp add: d1_def d2_def getprop_def update_conv')
  have b: "\<forall>b. getprop d ''locked'' = Some (JBool b) \<longrightarrow>
      s\<lparr>entries := AList.update i d2 (entries s)\<rparr> = s"
    using stored by (simp add: d1_def d2_def getprop_def update_conv' update_triv)
  have "map_of (entries (snd (toggle s))) i = Some d1"
    using s1 h1 by simp
  moreover have "map_of (entries (snd (toggle (snd (toggle s))))) i = Some d2"
    by (simp add: s1 s2 update_conv')
  moreover have "\<forall>j. j \<noteq> i \<longrightarrow>
      map_of (entries (snd (toggle (snd (toggle s))))) j = map_of (entries s) j"
    by (simp add: s1 s2 update_conv')
  moreover have "\<forall>b. getprop d ''locked'' = Some (JBool b) \<longrightarrow> snd (toggle (snd (toggle s))) = s"
    using b by (simp add: s1 s2)
  ultimately show ?thesis
    using l1 l2 o by blast
qed

text \<open>
  Claim C6. For a stored entry, on a database that answers every round trip, one
  \<open>toggleLockEntry\<close> succeeds and sets \<open>locked\<close> to the negation of its value as read,
  two in a row give back the lock state of the beginning, no other field and no other
  entry changes, and if \<open>locked\<close> was a boolean the database is again what it was. This
  holds for the version that returns \<open>{ok: true}\<close> and for the one that returns \<open>true\<close>.
\<close>

theorem toggleLockEntry_involution:
  assumes healthy: "faults s = []" and stored: "map_of (entries s) i = Some d"
  shows "fst (toggleLockEntry i s) = Inr Ok \<and>
         fst (toggleLockEntry i (snd (toggleLockEntry i s))) = Inr Ok \<and>
         (\<exists>d1 d2.
            map_of (entries (snd (toggleLockEntry i s))) i = Some d1 \<and>
            map_of (entries (snd (toggleLockEntry i (snd (toggleLockEntry i s))))) i = Some d2 \<and>
            getprop d1 ''locked'' = Some (JBool (\<not> truthy (getprop d ''locked''))) \<and>
            truthy (getprop d2 ''locked'') = truthy (getprop d ''locked'') \<and>
            (\<forall>k. k \<noteq> ''locked'' \<longrightarrow> getprop d1 k = getprop d k \<and> getprop d2 k = getprop d k) \<and>
            (\<forall>j. j \<noteq> i \<longrightarrow>
               map_of (entries (snd (toggleLockEntry i (snd (toggleLockEntry i s))))) j =
               map_of (entries s) j) \<and>
            (\<forall>b. getprop d ''locked'' = Some (JBool b) \<longrightarrow>
               snd (toggleLockEntry i (snd (toggleLockEntry i s))) = s)) \<and>
         fst (toggleLockEntry_seed i s) = Inr True \<and>
         fst (toggleLockEntry_seed i (snd (toggleLockEntry_seed i s))) = Inr True \<and>
         (\<exists>d1 d2.
            map_of (entries (snd (toggleLockEntry_seed i s))) i = Some d1 \<and>
            map_of (entries (snd (toggleLockEntry_seed i (snd (toggleLockEntry_seed i s))))) i =
              Some d2 \<and>
            getprop d1 ''locked'' = Some (JBool (\<not> truthy (getprop d ''locked''))) \<and>
            truthy (getprop d2 ''locked'') = truthy (getprop d ''locked'') \<and>
            (\<forall>k. k \<noteq> ''locked'' \<longrightarrow> getprop d1 k = getprop d k \<and> getprop d2 k = getprop d k) \<and>
            (\<forall>j. j \<noteq> i \<longrightarrow>
               map_of (entries (snd (toggleLockEntry_seed i (snd (toggleLockEntry_seed i s))))) j =
               map_of (entries s) j) \<and>
            (\<forall>b. getprop d ''locked'' = Some (JBool b) \<longrightarrow>
               snd (toggleLockEntry_seed i (snd (toggleLockEntry_seed i s))) = s))"
proof -
  let ?d1 = "AList.update ''locked'' (JBool (\<not> truthy (getprop d ''locked''))) d"
  let ?s1 = "s\<lparr>entries := AList.update i ?d1 (entries s)\<rparr>"
  have h1: "faults ?s1 = []" "map_of (entries ?s1) i = Some ?d1"
    using healthy by (simp_all add: update_conv')
  have a: "fst (toggleLockEntry i s) = Inr Ok" "snd (toggleLockEntry i s) = ?s1"
    using toggleLockEntry_healthy [OF healthy stored] by simp_all
  have b: "fst (toggleLockEntry i ?s1) = Inr Ok"
    using toggleLockEntry_healthy [OF h1] by simp
  have c: "fst (toggleLockEntry_seed i s) = Inr True" "snd (toggleLockEntry_seed i s) = ?s1"
    using toggleLockEntry_seed_healthy [OF healthy stored] by simp_all
  have d: "fst (toggleLockEntry_seed i ?s1) = Inr True"
    using toggleLockEntry_seed_healthy [OF h1] by simp
  note t1 = toggle_twice [of i "toggleLockEntry i" s d, OF _ healthy stored]
  note t2 = toggle_twice [of i "toggleLockEntry_seed i" s d, OF _ healthy stored]
  show ?thesis
    using a(1) b c(1) d t1 t2
    by (simp only: a(2) c(2) toggleLockEntry_healthy toggleLockEntry_seed_healthy snd_conv
        simp_thms)
qed

theorem toggleLockEntry_involution_witness:
  "faults locked_backend = [] \<and>
   map_of (entries locked_backend) ''RSA261__2024-05-01__1'' = Some locked_entry \<and>
   fst (toggleLockEntry ''RSA261__2024-05-01__1'' locked_backend) = Inr Ok \<and>
   snd (toggleLockEntry ''RSA261__2024-05-01__1''
          (snd (toggleLockEntry ''RSA261__2024-05-01__1'' locked_backend))) = locked_backend \<and>
   fst (toggleLockEntry_seed ''RSA261__2024-05-01__1'' locked_backend) = Inr True \<and>
   snd (toggleLockEntry_seed ''RSA261__2024-05-01__1''
          (snd (toggleLockEntry_seed ''RSA261__2024-05-01__1'' locked_backend))) = locked_backend"
proof -
  have h: "faults locked_backend = []"
    "map_of (entries locked_backend) ''RSA261__2024-05-01__1'' = Some locked_entry"
    by (simp_all add: locked_backend_def demo_backend_def)
  have l: "getprop locked_entry ''locked'' = Some (JBool True)"
    by (simp add: locked_entry_def intro_entry_def getprop_def)
  show ?thesis
    using toggleLockEntry_involution [OF h] h l by blast
qed

text \<open>
  Claim C10. Let a stored entry have no \<open>locked\<close> field, on a database that answers
  every round trip. \<open>toggleLockEntry\<close> sets \<open>locked\<close> to true, exactly as it does for the
  same entry with \<open>locked: false\<close>. \<open>updateEntry\<close> passes the lock check and proceeds: when
  the new fields derive the entry's id it sets them in the document and returns
  \<open>{ok: true}\<close>; when they derive another id it moves the entry, with the new fields set,
  to that id and returns it, unless an entry is stored there (\<open>'duplicate_target'\<close>). It
  does not fail with \<open>'locked'\<close>; it returns what it returns for the same entry with
  \<open>locked: false\<close>, and the two resulting collections hold the same documents with the
  same fields apart from \<open>locked\<close>.
\<close>

theorem missing_locked_is_unlocked:
  assumes healthy: "faults s = []" and i: "i \<noteq> []"
    and stored: "map_of (entries s) i = Some d"
    and missing: "getprop d ''locked'' = None"
  shows "(let sF = s\<lparr>entries :=
                      AList.update i (AList.update ''locked'' (JBool False) d) (entries s)\<rparr> in
          toggleLockEntry i s =
            (Inr Ok,
             s\<lparr>entries := AList.update i (AList.update ''locked'' (JBool True) d) (entries s)\<rparr>) \<and>
          toggleLockEntry i sF = toggleLockEntry i s \<and>
          updateEntry (Some i) data s =
            (if makeEntryId data = i
             then (Inr Ok,
                   s\<lparr>entries := AList.update i (AList.merge d data) (entries s)\<rparr>)
             else if map_of (entries s) (makeEntryId data) \<noteq> None
             then (Inr (Fail ''duplicate_target''), s)
             else (Inr (OkId (makeEntryId data)),
                   s\<lparr>entries := AList.delete i
                       (AList.update (makeEntryId data) (AList.merge d data) (entries s))\<rparr>)) \<and>
          fst (updateEntry (Some i) data s) \<noteq> Inr (Fail ''locked'') \<and>
          fst (updateEntry (Some i) data s) = fst (updateEntry (Some i) data sF) \<and>
          (\<forall>j. rel_option (\<lambda>a b. \<forall>k. k \<noteq> ''locked'' \<longrightarrow> getprop a k = getprop b k)
                 (map_of (entries (snd (updateEntry (Some i) data s))) j)
                 (map_of (entries (snd (updateEntry (Some i) data sF))) j)))"
proof -
  let ?dF = "AList.update ''locked'' (JBool False) d"
  define sF where "sF = s\<lparr>entries := AList.update i ?dF (entries s)\<rparr>"
  have unl: "\<not> truthy (getprop d ''locked'')" "\<not> truthy (getprop ?dF ''locked'')"
    using missing by (simp_all add: getprop_def update_conv')
  have hF: "faults sF = []" "map_of (entries sF) i = Some ?dF"
    using healthy by (simp_all add: sF_def update_conv')
  have t: "toggleLockEntry i s =
      (Inr Ok,
       s\<lparr>entries := AList.update i (AList.update ''locked'' (JBool True) d) (entries s)\<rparr>)"
    using toggleLockEntry_healthy [OF healthy stored] unl by simp
  have tF: "toggleLockEntry i sF = toggleLockEntry i s"
    using toggleLockEntry_healthy [OF hF] unl t by (simp add: sF_def)
  note u = updateEntry_healthy [OF healthy i stored unl(1), of data]
  note uF = updateEntry_healthy [OF hF(1) i hF(2) unl(2), of data]
  have dom: "\<And>j. (map_of (entries sF) j \<noteq> None) = (map_of (entries s) j \<noteq> None)"
    using stored by (auto simp: sF_def update_conv')
  have r1: "fst (updateEntry (Some i) data s) \<noteq> Inr (Fail ''locked'')"
    unfolding u by simp
  have r2: "fst (updateEntry (Some i) data s) = fst (updateEntry (Some i) data sF)"
    unfolding u uF using dom by simp
  have fields: "\<And>k. k \<noteq> ''locked'' \<Longrightarrow>
      getprop (AList.merge d data) k = getprop (AList.merge ?dF data) k"
    by (simp add: getprop_def merge_conv' update_conv' map_add_def split: option.splits)
  have r3: "rel_option (\<lambda>a b. \<forall>k. k \<noteq> ''locked'' \<longrightarrow> getprop a k = getprop b k)
                (map_of (entries (snd (updateEntry (Some i) data s))) j)
                (map_of (entries (snd (updateEntry (Some i) data sF))) j)" for j
  proof (cases "map_of (entries s) j")
    case None
    then show ?thesis
      unfolding u uF using dom [of "makeEntryId data"] stored fields
      by (auto simp: sF_def update_conv' delete_conv' option.rel_map)
  next
    case (Some a)
    then show ?thesis
      unfolding u uF using dom [of "makeEntryId data"] stored fields
      by (auto simp: sF_def update_conv' delete_conv' option.rel_map getprop_def)
  qed
  from t tF u r1 r2 r3 show ?thesis
    unfolding Let_def sF_def by blast
qed

theorem missing_locked_is_unlocked_witness:
  "faults stored_backend = [] \<and>
   map_of (entries stored_backend) ''RSA261__2024-05-01__1'' = Some intro_entry \<and>
   getprop intro_entry ''locked'' = None \<and>
   toggleLockEntry ''RSA261__2024-05-01__1'' stored_backend = (Inr Ok, locked_backend) \<and>
   updateEntry (Some ''RSA261__2024-05-01__1'') other_entry stored_backend =
     (Inr Ok, demo_backend\<lparr>entries := [(''RSA261__2024-05-01__1'', other_entry)]\<rparr>) \<and>
   updateEntry (Some ''RSA261__2024-05-01__1'') next_entry stored_backend =
     (Inr (OkId ''RSA261__2024-05-01__2''),
      demo_backend\<lparr>entries := [(''RSA261__2024-05-01__2'', next_entry)]\<rparr>) \<and>
   fst (updateEntry (Some ''RSA261__2024-05-01__1'') other_entry stored_backend) \<noteq>
     Inr (Fail ''locked'')"
proof -
  have h: "faults stored_backend = []" "''RSA261__2024-05-01__1'' \<noteq> []"
    "map_of (entries stored_backend) ''RSA261__2024-05-01__1'' = Some intro_entry"
    "getprop intro_entry ''locked'' = None"
    by (simp_all add: stored_backend_def demo_backend_def intro_entry_def getprop_def)
  have l: "stored_backend\<lparr>entries := AList.update ''RSA261__2024-05-01__1''
        (AList.update ''locked'' (JBool True) intro_entry) (entries stored_backend)\<rparr> =
      locked_backend"
    by (simp add: stored_backend_def locked_backend_def locked_entry_def intro_entry_def)
  have c: "toggleLockEntry ''RSA261__2024-05-01__1'' stored_backend =
      (Inr Ok, stored_backend\<lparr>entries := AList.update ''RSA261__2024-05-01__1''
        (AList.update ''locked'' (JBool True) intro_entry) (entries stored_backend)\<rparr>)"
    "fst (updateEntry (Some ''RSA261__2024-05-01__1'') other_entry stored_backend) \<noteq>
      Inr (Fail ''locked'')"
    using missing_locked_is_unlocked [OF h, of other_entry] unfolding Let_def by blast+
  have e: "entries stored_backend = [(''RSA261__2024-05-01__1'', intro_entry)]"
    by (simp add: stored_backend_def)
  have m: "AList.merge intro_entry other_entry = other_entry"
    "AList.merge intro_entry next_entry = next_entry"
    by (simp_all add: intro_entry_def other_entry_def next_entry_def)
  have w: "stored_backend\<lparr>entries := [(''RSA261__2024-05-01__1'', other_entry)]\<rparr> =
      demo_backend\<lparr>entries := [(''RSA261__2024-05-01__1'', other_entry)]\<rparr>"
    "stored_backend\<lparr>entries := [(''RSA261__2024-05-01__2'', next_entry)]\<rparr> =
      demo_backend\<lparr>entries := [(''RSA261__2024-05-01__2'', next_entry)]\<rparr>"
    by (simp_all add: stored_backend_def)
  have u1: "updateEntry (Some ''RSA261__2024-05-01__1'') other_entry stored_backend =
      (Inr Ok, demo_backend\<lparr>entries := [(''RSA261__2024-05-01__1'', other_entry)]\<rparr>)"
  proof -
    have "updateEntry (Some ''RSA261__2024-05-01__1'') other_entry stored_backend =
        (if makeEntryId other_entry = ''RSA261__2024-05-01__1''
         then (Inr Ok,
               stored_backend\<lparr>entries := AList.update ''RSA261__2024-05-01__1''
                 (AList.merge intro_entry other_entry) (entries stored_backend)\<rparr>)
         else if map_of (entries stored_backend) (makeEntryId other_entry) \<noteq> None
         then (Inr (Fail ''duplicate_target''), stored_backend)
         else (Inr (OkId (makeEntryId other_entry)),
               stored_backend\<lparr>entries := AList.delete ''RSA261__2024-05-01__1''
                 (AList.update (makeEntryId other_entry)
                    (AList.merge intro_entry other_entry) (entries stored_backend))\<rparr>))"
      using missing_locked_is_unlocked [OF h, of other_entry] unfolding Let_def by blast
    then show ?thesis
      by (simp add: other_entry_id m e w)
  qed
  have u2: "updateEntry (Some ''RSA261__2024-05-01__1'') next_entry stored_backend =
      (Inr (OkId ''RSA261__2024-05-01__2''),
       demo_backend\<lparr>entries := [(''RSA261__2024-05-01__2'', next_entry)]\<rparr>)"
  proof -
    have "updateEntry (Some ''RSA261__2024-05-01__1'') next_entry stored_backend =
        (if makeEntryId next_entry = ''RSA261__2024-05-01__1''
         then (Inr Ok,
               stored_backend\<lparr>entries := AList.update ''RSA261__2024-05-01__1''
                 (AList.merge intro_entry next_entry) (entries stored_backend)\<rparr>)
         else if map_of (entries stored_backend) (makeEntryId next_entry) \<noteq> None
         then (Inr (Fail ''duplicate_target''), stored_backend)
         else (Inr (OkId (makeEntryId next_entry)),
               stored_backend\<lparr>entries := AList.delete ''RSA261__2024-05-01__1''
                 (AList.update (makeEntryId next_entry)
                    (AList.merge intro_entry next_entry) (entries stored_backend))\<rparr>))"
      using missing_locked_is_unlocked [OF h, of next_entry] unfolding Let_def by blast
    then show ?thesis
      by (simp add: next_entry_id m e w)
  qed
  show ?thesis
    using c u1 u2 h(1,3,4) unfolding l by blast
qed

section \<open>Operations that leave the entries alone\<close>

lemma bind_keeps_entries:
  assumes "\<And>s. entries (snd (m s)) = entries s" "\<And>x s. entries (snd (f x s)) = entries s"
  shows "entries (snd (bind m f s)) = entries s"
proof (cases "m s")
  case (Pair r s')
  with assms(1) [of s] have "entries s' = entries s" by simp
  with Pair assms(2) show ?thesis
    by (cases r) (simp_all add: bind_def)
qed

lemma catch_keeps_entries:
  assumes "\<And>s. entries (snd (m s)) = entries s" "\<And>e s. entries (snd (h e s)) = entries s"
  shows "entries (snd (catch m h s)) = entries s"
proof (cases "m s")
  case (Pair r s')
  with assms(1) [of s] have "entries s' = entries s" by simp
  with Pair assms(2) show ?thesis
    by (cases r) (simp_all add: catch_def)
qed

lemma ret_keeps_entries: "entries (snd (ret x s)) = entries s"
  by (simp add: ret_def)

lemma throw_keeps_entries: "entries (snd (throw e s)) = entries s"
  by (simp add: throw_def)

lemma lift_keeps_entries: "entries (snd (lift r s)) = entries s"
  by (cases r) (simp_all add: lift_def ret_def throw_def)

lemma request_keeps_entries: "entries (snd (request s)) = entries s"
  using request_cases [of s] by auto

lemma get_meta_keeps_entries: "entries (snd (get_meta s)) = entries s"
  unfolding get_meta_def by (rule bind_keeps_entries) (simp_all add: request_keeps_entries)

lemma set_meta_keeps_entries: "entries (snd (set_meta m s)) = entries s"
  unfolding set_meta_def by (rule bind_keeps_entries) (simp_all add: request_keeps_entries)

lemma query_ordered_keeps_entries: "entries (snd (query_ordered s)) = entries s"
  unfolding query_ordered_def by (rule bind_keeps_entries) (simp_all add: request_keeps_entries)

lemma query_all_keeps_entries: "entries (snd (query_all s)) = entries s"
  unfolding query_all_def by (rule bind_keeps_entries) (simp_all add: request_keeps_entries)

lemmas keeps_entries =
  bind_keeps_entries catch_keeps_entries ret_keeps_entries throw_keeps_entries
  lift_keeps_entries get_meta_keeps_entries set_meta_keeps_entries
  query_ordered_keeps_entries query_all_keeps_entries

lemma loadMeta_keeps_entries: "entries (snd (loadMeta s)) = entries s"
  unfolding loadMeta_def by (intro keeps_entries) (simp_all add: keeps_entries split: option.splits)

lemma saveMeta_keeps_entries: "entries (snd (saveMeta m s)) = entries s"
  unfolding saveMeta_def by (intro keeps_entries)

lemma loadEntries_keeps_entries: "entries (snd (loadEntries s)) = entries s"
  unfolding loadEntries_def by (intro keeps_entries)

lemma getStudentsForCourse_keeps_entries: "entries (snd (getStudentsForCourse c s)) = entries s"
  unfolding getStudentsForCourse_def
  by (intro keeps_entries loadMeta_keeps_entries)
     (auto split: option.splits intro!: keeps_entries)

lemma addCourse_keeps_entries: "entries (snd (addCourse up n st s)) = entries s"
  unfolding addCourse_def Let_def
  by (intro keeps_entries loadMeta_keeps_entries)
     (auto split: option.splits intro!: keeps_entries saveMeta_keeps_entries)

lemma deleteCourse_keeps_entries: "entries (snd (deleteCourse c s)) = entries s"
  unfolding deleteCourse_def
  by (intro keeps_entries loadMeta_keeps_entries saveMeta_keeps_entries)

lemma ensureDefaults_keeps_entries: "entries (snd (ensureDefaults s)) = entries s"
  unfolding ensureDefaults_def
  by (intro keeps_entries loadMeta_keeps_entries)
     (auto split: prod.splits intro!: keeps_entries saveMeta_keeps_entries)

section \<open>Locked entries\<close>

lemma addEntry_keeps_present:
  assumes "map_of (entries s) i = Some d"
  shows "map_of (entries (snd (addEntry e s))) i = Some d"
proof -
  let ?body = "\<lambda>docs. case map_of docs (makeEntryId e) of
            Some _ \<Rightarrow> (Fail ''duplicate'', [])
          | None \<Rightarrow> (OkId (makeEntryId e), [TxSet (makeEntryId e) e])"
  have u: "addEntry e s =
      (case runTransaction ?body s of
         (Inl x, t) \<Rightarrow> (Inr (Fail (reason x)), t)
       | (Inr x, t) \<Rightarrow> (Inr x, t))"
    by (simp add: addEntry_def catch_def ret_def Let_def split: prod.splits sum.splits)
  from runTransaction_cases [of ?body s] show ?thesis
  proof (elim disjE exE conjE)
    fix x t
    assume "runTransaction ?body s = (Inl x, t)" "entries t = entries s"
    then show ?thesis using u assms by simp
  next
    fix t
    assume "runTransaction ?body s = (Inr (fst (?body (entries s))), t)"
      and "entries t = fold apply_write (snd (?body (entries s))) (entries s)"
    then show ?thesis
      using u assms by (cases "map_of (entries s) (makeEntryId e)") (auto simp: update_conv')
  qed
qed

lemma toggleLockEntry_keeps_other:
  assumes "map_of (entries s) i = Some d" "j \<noteq> i"
  shows "map_of (entries (snd (toggleLockEntry j s))) i = Some d"
proof -
  from get_entry_cases [of j s] show ?thesis
  proof (elim disjE exE conjE)
    fix e s'
    assume "get_entry j s = (Inl e, s')" "entries s' = entries s"
    then show ?thesis
      using assms by (simp add: toggleLockEntry_def catch_def bind_def ret_def)
  next
    fix s'
    assume g: "get_entry j s = (Inr (map_of (entries s) j), s')" and e: "entries s' = entries s"
    show ?thesis
    proof (cases "map_of (entries s) j")
      case None
      then show ?thesis
        using g e assms by (simp add: toggleLockEntry_def catch_def bind_def ret_def)
    next
      case (Some cur)
      from update_entry_cases [of j "[(''locked'', JBool (\<not> truthy (getprop cur ''locked'')))]" s']
      show ?thesis
        using g e assms Some
        by (auto simp: toggleLockEntry_def catch_def bind_def ret_def update_conv')
    qed
  qed
qed

lemma deleteEntryById_keeps_other:
  assumes "map_of (entries s) i = Some d" "j \<noteq> i"
  shows "map_of (entries (snd (deleteEntryById j s))) i = Some d"
  using delete_entry_cases [of j s] assms
  by (auto simp: deleteEntryById_def catch_def bind_def ret_def delete_conv')

lemma updateEntry_keeps_locked:
  assumes stored: "map_of (entries s) i = Some d" and locked: "truthy (getprop d ''locked'')"
  shows "map_of (entries (snd (updateEntry oldId data s))) i = Some d"
proof (cases "oldId = None \<or> oldId = Some []")
  case True
  then show ?thesis
    using stored by (auto simp: updateEntry_def catch_def ret_def)
next
  case False
  then obtain j where j: "oldId = Some j" "j \<noteq> []"
    by (cases oldId) auto
  from get_entry_cases [of j s] show ?thesis
  proof (elim disjE exE conjE)
    fix e s'
    assume "get_entry j s = (Inl e, s')" "entries s' = entries s"
    then show ?thesis
      using j stored by (simp add: updateEntry_def catch_def bind_def ret_def)
  next
    fix s'
    assume g: "get_entry j s = (Inr (map_of (entries s) j), s')" and e: "entries s' = entries s"
    show ?thesis
    proof (cases "map_of (entries s) j")
      case None
      then show ?thesis
        using j g e stored by (simp add: updateEntry_def catch_def bind_def ret_def)
    next
      case (Some cur)
      show ?thesis
      proof (cases "truthy (getprop cur ''locked'')")
        case True
        then show ?thesis
          using j g e stored Some by (simp add: updateEntry_def catch_def bind_def ret_def)
      next
        case unlocked: False
        then have ji: "j \<noteq> i"
          using Some stored locked by auto
        show ?thesis
        proof (cases "makeEntryId data = j")
          case True
          from update_entry_cases [of j data s'] show ?thesis
            using j g e stored Some unlocked True ji
            by (auto simp: updateEntry_def catch_def bind_def ret_def update_conv')
        next
          case rename: False
          let ?body = "\<lambda>docs. case map_of docs (makeEntryId data) of
                          Some _ \<Rightarrow> (Fail ''duplicate_target'', [])
                        | None \<Rightarrow>
                            (case map_of docs j of
                               None \<Rightarrow> (Fail ''not_found_during_tx'', [])
                             | Some oldData \<Rightarrow>
                                 if truthy (getprop oldData ''locked'') then (Fail ''locked'', [])
                                 else (OkId (makeEntryId data),
                                       [TxSet (makeEntryId data) (AList.merge oldData data),
                                        TxDelete j]))"
          have u: "updateEntry oldId data s =
              (case runTransaction ?body s' of
                 (Inl x, t) \<Rightarrow> (Inr (Fail (reason x)), t)
               | (Inr x, t) \<Rightarrow> (Inr x, t))"
            using j g Some unlocked rename
            by (simp add: updateEntry_def catch_def bind_def ret_def Let_def
                split: prod.splits sum.splits)
          from runTransaction_cases [of ?body s'] show ?thesis
          proof (elim disjE exE conjE)
            fix x t
            assume "runTransaction ?body s' = (Inl x, t)" "entries t = entries s'"
            then show ?thesis using u e stored by simp
          next
            fix t
            assume "runTransaction ?body s' = (Inr (fst (?body (entries s'))), t)"
              and "entries t = fold apply_write (snd (?body (entries s'))) (entries s')"
            then show ?thesis
              using u e stored Some unlocked ji
              by (cases "map_of (entries s) (makeEntryId data)")
                 (auto simp: update_conv' delete_conv')
          qed
        qed
      qed
    qed
  qed
qed

text \<open>
  Claim C3. Let an entry be stored with \<open>locked\<close> true. On a database that answers,
  \<open>updateEntry\<close> on its id fails with \<open>'locked'\<close> and leaves the database as it is, in
  the version that can rename and in the one that updates in place. Whatever the
  database answers, after any operation of the facade other than \<open>toggleLockEntry\<close> and
  \<open>deleteEntryById\<close> on that id the entry is stored under its id with the same fields.
  On a database that answers, \<open>toggleLockEntry\<close> unlocks the entry and
  \<open>deleteEntryById\<close> removes it.
\<close>

theorem locked_entry_protected:
  assumes stored: "map_of (entries s) i = Some d"
    and locked: "getprop d ''locked'' = Some (JBool True)"
  shows "(i \<noteq> [] \<and> faults s = [] \<longrightarrow>
            updateEntry (Some i) data s = (Inr (Fail ''locked''), s) \<and>
            updateEntry_direct (Some i) data s = (Inr (Fail ''locked''), s)) \<and>
         (\<forall>op. op \<noteq> ToggleLockEntry i \<and> op \<noteq> DeleteEntryById i \<longrightarrow>
            map_of (entries (perform up op s)) i = Some d) \<and>
         (faults s = [] \<longrightarrow>
            map_of (entries (perform up (ToggleLockEntry i) s)) i =
              Some (AList.update ''locked'' (JBool False) d) \<and>
            map_of (entries (perform up (DeleteEntryById i) s)) i = None)"
proof -
  have t: "truthy (getprop d ''locked'')"
    using locked by simp
  have a: "i \<noteq> [] \<and> faults s = [] \<longrightarrow>
            updateEntry (Some i) data s = (Inr (Fail ''locked''), s) \<and>
            updateEntry_direct (Some i) data s = (Inr (Fail ''locked''), s)"
    using updateEntry_locked [OF _ _ stored t] updateEntry_direct_locked [OF _ _ stored t]
    by simp
  have b: "map_of (entries (perform up op s)) i = Some d"
    if "op \<noteq> ToggleLockEntry i" "op \<noteq> DeleteEntryById i" for op
  proof (cases op)
    case (AddEntry e)
    then show ?thesis using addEntry_keeps_present [OF stored] by simp
  next
    case (UpdateEntry oldId nf)
    then show ?thesis using updateEntry_keeps_locked [OF stored t] by simp
  next
    case (DeleteEntryById j)
    then show ?thesis using that deleteEntryById_keeps_other [OF stored, of j] by auto
  next
    case (ToggleLockEntry j)
    then show ?thesis using that toggleLockEntry_keeps_other [OF stored, of j] by auto
  qed (simp_all add: stored loadMeta_keeps_entries saveMeta_keeps_entries
        loadEntries_keeps_entries getStudentsForCourse_keeps_entries addCourse_keeps_entries
        deleteCourse_keeps_entries ensureDefaults_keeps_entries)
  have c: "faults s = [] \<longrightarrow>
            map_of (entries (perform up (ToggleLockEntry i) s)) i =
              Some (AList.update ''locked'' (JBool False) d) \<and>
            map_of (entries (perform up (DeleteEntryById i) s)) i = None"
    using toggleLockEntry_healthy [OF _ stored] t
    by (simp add: update_conv' delete_conv' deleteEntryById_def catch_def bind_def ret_def
        delete_entry_def request_healthy)
  from a b c show ?thesis by blast
qed

theorem locked_entry_protected_witness:
  "map_of (entries locked_backend) ''RSA261__2024-05-01__1'' = Some locked_entry \<and>
   getprop locked_entry ''locked'' = Some (JBool True) \<and>
   updateEntry (Some ''RSA261__2024-05-01__1'') [(''content'', JStr ''x'')] locked_backend =
     (Inr (Fail ''locked''), locked_backend) \<and>
   updateEntry_direct (Some ''RSA261__2024-05-01__1'') [(''content'', JStr ''x'')] locked_backend =
     (Inr (Fail ''locked''), locked_backend) \<and>
   map_of (entries (perform id (AddEntry other_entry) locked_backend)) ''RSA261__2024-05-01__1'' =
     Some locked_entry \<and>
   map_of (entries (perform id (DeleteEntryById ''RSA261__2024-05-01__1'') locked_backend))
     ''RSA261__2024-05-01__1'' = None"
proof -
  have h: "map_of (entries locked_backend) ''RSA261__2024-05-01__1'' = Some locked_entry"
    "getprop locked_entry ''locked'' = Some (JBool True)"
    by (simp_all add: locked_backend_def demo_backend_def locked_entry_def intro_entry_def
        getprop_def)
  have f: "''RSA261__2024-05-01__1'' \<noteq> [] \<and> faults locked_backend = []"
    by (simp add: locked_backend_def demo_backend_def)
  have o: "AddEntry other_entry \<noteq> ToggleLockEntry ''RSA261__2024-05-01__1'' \<and>
    AddEntry other_entry \<noteq> DeleteEntryById ''RSA261__2024-05-01__1''"
    by simp
  show ?thesis
    using locked_entry_protected [OF h, of "[(''content'', JStr ''x'')]" id] h f o
    by blast
qed

section \<open>Reading\<close>

text \<open>
  Claim C8. \<open>loadMeta\<close> and \<open>loadEntries\<close> fulfil for every state of the database and
  every sequence of answers. \<open>loadMeta\<close> gives the stored metadata, and the empty default
  when the document is absent or the read is rejected. \<open>loadEntries\<close> gives the entries
  in order, the entries as the plain query returns them when the ordered query is
  rejected, and the empty list when both are rejected. Neither writes.
\<close>

theorem reads_mask_failures:
  "fst (loadMeta s) =
     Inr (if rejects_first s then default_meta
          else case meta_doc s of None \<Rightarrow> default_meta | Some data \<Rightarrow> data) \<and>
   fst (loadEntries s) =
     Inr (if \<not> rejects_first s
          then map with_id (sort_by (entry_before (value_le s)) (filter has_date_hour (entries s)))
          else if \<not> rejects_second s
          then map with_id (sort_by (\<lambda>d1 d2. fst d1 \<le> fst d2) (entries s))
          else []) \<and>
   entries (snd (loadMeta s)) = entries s \<and> meta_doc (snd (loadMeta s)) = meta_doc s \<and>
   entries (snd (loadEntries s)) = entries s \<and> meta_doc (snd (loadEntries s)) = meta_doc s"
proof -
  have m: "fst (loadMeta s) =
     Inr (if rejects_first s then default_meta
          else case meta_doc s of None \<Rightarrow> default_meta | Some data \<Rightarrow> data)"
    by (simp add: loadMeta_def catch_def bind_def ret_def get_meta_def request_def
        rejects_first_def split: list.splits option.splits)
  have e: "fst (loadEntries s) =
     Inr (if \<not> rejects_first s
          then map with_id (sort_by (entry_before (value_le s)) (filter has_date_hour (entries s)))
          else if \<not> rejects_second s
          then map with_id (sort_by (\<lambda>d1 d2. fst d1 \<le> fst d2) (entries s))
          else [])"
    by (simp add: loadEntries_def catch_def bind_def ret_def query_ordered_def query_all_def
        request_def rejects_first_def rejects_second_def split: list.splits option.splits)
  have k: "entries (snd (loadMeta s)) = entries s \<and> meta_doc (snd (loadMeta s)) = meta_doc s"
    by (simp add: loadMeta_def catch_def bind_def ret_def get_meta_def request_def
        split: list.splits option.splits)
  have l: "entries (snd (loadEntries s)) = entries s \<and> meta_doc (snd (loadEntries s)) = meta_doc s"
    by (simp add: loadEntries_def catch_def bind_def ret_def query_ordered_def query_all_def
        request_def split: list.splits option.splits)
  from m e k l show ?thesis by simp
qed

theorem reads_mask_failures_witness:
  "rejects_first offline_backend \<and> rejects_second offline_backend \<and>
   fst (loadMeta offline_backend) = Inr default_meta \<and>
   fst (loadEntries offline_backend) = Inr [] \<and>
   fst (loadMeta demo_backend) = Inr default_meta \<and>
   fst (loadEntries stored_backend) =
     Inr [(''id'', JStr ''RSA261__2024-05-01__1'') # intro_entry]"
proof -
  have r: "rejects_first offline_backend" "rejects_second offline_backend"
    "\<not> rejects_first demo_backend" "\<not> rejects_first stored_backend"
    by (simp_all add: rejects_first_def rejects_second_def offline_backend_def
        stored_backend_def demo_backend_def)
  have w: "map with_id (sort_by (entry_before (value_le stored_backend))
        (filter has_date_hour (entries stored_backend))) =
      [(''id'', JStr ''RSA261__2024-05-01__1'') # intro_entry]"
    by (simp add: stored_backend_def demo_backend_def sort_by_def has_date_hour_def
        intro_entry_def getprop_def with_id_def AList.delete_eq)
  have n: "meta_doc demo_backend = None"
    by (simp add: demo_backend_def)
  show ?thesis
    using reads_mask_failures [of offline_backend] reads_mask_failures [of demo_backend]
      reads_mask_failures [of stored_backend] r w n
    by simp
qed

section \<open>Saving with merge\<close>

lemma set_update_subset: "set (AList.update k v al) \<subseteq> insert (k, v) (set al)"
  by (induction al) auto

lemma merge_val_leaf:
  "truthy (Some (merge_val old v)) = truthy (Some v)"
  "merge_val old (JArr xs) = JArr xs"
  "nonempty_array (Some (merge_val old v)) = nonempty_array (Some v)"
proof -
  have "merge_val old v = v \<or> (\<exists>a b. v = JObj a \<and> merge_val old v = JObj b)"
  proof (cases v)
    case (JObj fs)
    then show ?thesis
      by (cases fs; cases old) (auto split: jsval.splits)
  qed simp_all
  then show "truthy (Some (merge_val old v)) = truthy (Some v)"
    "nonempty_array (Some (merge_val old v)) = nonempty_array (Some v)"
    by (auto simp: nonempty_array_def)
  show "merge_val old (JArr xs) = JArr xs"
    by simp
qed

lemma merge_fields_lookup:
  "map_of b k = Some v \<Longrightarrow> \<exists>old. map_of (merge_fields a b) k = Some (merge_val old v)"
proof (induction b)
  case Nil
  then show ?case by simp
next
  case (Cons p b)
  obtain k' v' where p: "p = (k', v')" by (cases p)
  show ?case
  proof (cases "k' = k")
    case True
    with Cons.prems p show ?thesis
      by (auto simp: Let_def update_conv')
  next
    case False
    with Cons p show ?thesis
      by (auto simp: Let_def update_conv')
  qed
qed

lemma distinct_keys_value:
  "distinct_keys (JObj a) \<Longrightarrow> map_of a k = Some v \<Longrightarrow> distinct_keys v"
  by (auto dest!: map_of_SomeD simp: image_iff)

lemma distinct_keys_update:
  assumes "distinct_keys (JObj a)" "distinct_keys v"
  shows "distinct_keys (JObj (AList.update k v a))"
proof -
  have "\<forall>x \<in> set (AList.update k v a). distinct_keys (snd x)"
    using set_update_subset [of k v a] assms by auto
  with assms show ?thesis
    by (simp add: distinct_update)
qed

lemma merge_keeps_distinct_keys:
  "(case old of None \<Rightarrow> True | Some w \<Rightarrow> distinct_keys w) \<Longrightarrow> distinct_keys v \<Longrightarrow>
     distinct_keys (merge_val old v)"
  "distinct_keys (JObj a) \<Longrightarrow> distinct_keys (JObj b) \<Longrightarrow> distinct_keys (JObj (merge_fields a b))"
proof (induction old v and a b rule: merge_val_merge_fields.induct)
  case (2 old p ps)
  show ?case
  proof (cases old)
    case None
    then show ?thesis using "2.prems" by simp
  next
    case (Some w)
    show ?thesis
    proof (cases w)
      case (JObj a)
      then show ?thesis
        using "2.IH" [OF Some JObj] "2.prems" Some by (simp del: distinct_keys.simps)
    qed (use Some "2.prems" in simp_all)
  qed
next
  case (10 a k v b)
  let ?a' = "merge_fields a b"
  have b: "distinct_keys (JObj b)" and v: "distinct_keys v"
    using "10.prems"(2) by auto
  have a': "distinct_keys (JObj ?a')"
    using "10.IH"(1) "10.prems"(1) b by simp
  have "case map_of ?a' k of None \<Rightarrow> True | Some w \<Rightarrow> distinct_keys w"
    using distinct_keys_value [OF a'] by (auto split: option.splits)
  then have "distinct_keys (merge_val (map_of ?a' k) v)"
    using "10.IH"(2) v by simp
  with a' show ?case
    by (simp add: Let_def distinct_keys_update del: distinct_keys.simps)
qed simp_all

lemma merge_self:
  "old = Some v \<Longrightarrow> distinct_keys v \<Longrightarrow> merge_val old v = v"
  "distinct_keys (JObj a) \<Longrightarrow> set b \<subseteq> set a \<Longrightarrow> merge_fields a b = a"
proof (induction old v and a b rule: merge_val_merge_fields.induct)
  case (2 old p ps)
  then show ?case by simp
next
  case (10 a k v b)
  have a': "merge_fields a b = a"
    using "10.IH"(1) "10.prems" by simp
  have kv: "map_of a k = Some v"
    using "10.prems" by (auto intro!: map_of_is_SomeI)
  have "distinct_keys v"
    using distinct_keys_value [OF "10.prems"(1) kv] .
  then have "merge_val (map_of a k) v = v"
    using "10.IH"(2) a' kv by simp
  then show ?case
    by (simp add: Let_def a' kv update_triv)
qed simp_all

lemma merge_fields_self: "distinct_keys (JObj a) \<Longrightarrow> merge_fields a a = a"
  by (rule merge_self(2)) simp_all

section \<open>Idempotence of the defaults\<close>

subsection \<open>Timetables\<close>

lemma fix_day_same: "getprop (fst acc) d = Some (JArr xs) \<Longrightarrow> length xs = 6 \<Longrightarrow> fix_day d acc = acc"
  by (simp add: fix_day_def)

lemma fix_day_makes_six:
  "\<exists>xs. getprop (fst (fix_day d acc)) d = Some (JArr xs) \<and> length xs = 6"
  by (auto simp: fix_day_def getprop_def update_conv' empty_slots_def
      split: option.splits jsval.splits)

lemma fix_day_keeps_six:
  assumes "getprop (fst acc) d' = Some (JArr xs)" "length xs = 6"
  shows "getprop (fst (fix_day d acc)) d' = Some (JArr xs)"
proof (cases "d' = d")
  case True
  then show ?thesis using assms by (simp add: fix_day_same)
next
  case False
  then show ?thesis
    using assms by (auto simp: fix_day_def getprop_def update_conv' split: option.splits jsval.splits)
qed

lemma fold_fix_day_keeps_six:
  "getprop (fst acc) d' = Some (JArr xs) \<Longrightarrow> length xs = 6 \<Longrightarrow>
   getprop (fst (fold fix_day ds acc)) d' = Some (JArr xs)"
  by (induction ds arbitrary: acc) (simp_all add: fix_day_keeps_six)

lemma fold_fix_day_makes_six:
  "d \<in> set ds \<Longrightarrow> \<exists>xs. getprop (fst (fold fix_day ds acc)) d = Some (JArr xs) \<and> length xs = 6"
proof (induction ds arbitrary: acc)
  case Nil
  then show ?case by simp
next
  case (Cons a ds)
  show ?case
  proof (cases "d \<in> set ds")
    case True
    then show ?thesis using Cons.IH by simp
  next
    case False
    then have "d = a" using Cons.prems by simp
    then show ?thesis
      using fix_day_makes_six [of a acc] fold_fix_day_keeps_six [of "fix_day a acc" a _ ds]
      by auto
  qed
qed

lemma fold_fix_day_same:
  "(\<forall>d \<in> set ds. \<exists>xs. getprop (fst acc) d = Some (JArr xs) \<and> length xs = 6) \<Longrightarrow>
   fold fix_day ds acc = acc"
  by (induction ds) (auto simp: fix_day_same)

lemma fold_fix_day_twice:
  "fold fix_day ds (fst (fold fix_day ds acc), False) = (fst (fold fix_day ds acc), False)"
  by (rule fold_fix_day_same) (simp add: fold_fix_day_makes_six)

lemma default_timetable_fixed:
  "fold fix_day weekdays (map (\<lambda>d. (d, empty_slots)) weekdays, False) =
     (map (\<lambda>d. (d, empty_slots)) weekdays, False)"
  by (rule fold_fix_day_same) (simp add: weekdays_def getprop_def empty_slots_def)

text \<open>A fixed course is a fixed point of the fixing.\<close>

lemma fix_course_twice:
  assumes "fix_course c = Inr (c', ch)"
  shows "\<exists>ch'. fix_course c' = Inr (c', ch')"
proof (cases c)
  case (JObj fs)
  show ?thesis
  proof (cases "truthy (getprop fs ''timetable'')")
    case False
    then have c': "c' = JObj (AList.update ''timetable'' default_timetable fs)"
      using assms JObj by simp
    show ?thesis
      by (auto simp: c' getprop_def update_conv' default_timetable_def default_timetable_fixed)
  next
    case True
    then obtain tt where tt: "getprop fs ''timetable'' = Some tt"
      by (cases "getprop fs ''timetable''") auto
    show ?thesis
    proof (cases tt)
      case (JObj tfs)
      then have c': "c' = JObj (AList.update ''timetable''
          (JObj (fst (fold fix_day weekdays (tfs, False)))) fs)"
        using assms \<open>c = JObj fs\<close> True tt by (simp split: prod.splits)
      show ?thesis
        by (auto simp: c' getprop_def update_conv' fold_fix_day_twice)
    qed (use assms \<open>c = JObj fs\<close> True tt in auto)
  qed
qed (use assms in auto)

lemma fix_courses_twice:
  "fix_courses cs = Inr (cs', ch) \<Longrightarrow> \<exists>ch'. fix_courses cs' = Inr (cs', ch')"
proof (induction cs arbitrary: cs' ch)
  case Nil
  then show ?case by auto
next
  case (Cons c cs)
  from Cons.prems obtain c1 ch1 cs1 ch2 where
    c: "fix_course c = Inr (c1, ch1)" and cs: "fix_courses cs = Inr (cs1, ch2)"
    and r: "cs' = c1 # cs1"
    by (auto split: sum.splits prod.splits)
  from fix_course_twice [OF c] Cons.IH [OF cs] show ?case
    by (auto simp: r)
qed

subsection \<open>ensureDefaults\<close>

lemma get_meta_healthy: "faults s = [] \<Longrightarrow> get_meta s = (Inr (meta_doc s), s)"
  by (simp add: get_meta_def bind_def request_healthy)

lemma loadMeta_healthy:
  "faults s = [] \<Longrightarrow>
   loadMeta s = (Inr (case meta_doc s of None \<Rightarrow> default_meta | Some d \<Rightarrow> d), s)"
  by (simp add: loadMeta_def catch_def bind_def ret_def get_meta_healthy split: option.splits)

lemma set_meta_healthy:
  "faults s = [] \<Longrightarrow>
   set_meta m s =
     (Inr (), s\<lparr>meta_doc := Some (case meta_doc s of None \<Rightarrow> m | Some d \<Rightarrow> merge_fields d m)\<rparr>)"
  by (simp add: set_meta_def bind_def request_healthy)

lemma saveMeta_healthy:
  "faults s = [] \<Longrightarrow>
   saveMeta m s =
     (Inr Ok, s\<lparr>meta_doc := Some (case meta_doc s of None \<Rightarrow> m | Some d \<Rightarrow> merge_fields d m)\<rparr>)"
  by (simp add: saveMeta_def catch_def bind_def ret_def set_meta_healthy)

lemma ensure_field_truthy: "truthy (getprop (fst (ensure_field f acc)) f)"
  by (simp add: ensure_field_def getprop_def update_conv')

lemma ensure_field_keeps_truthy:
  "truthy (getprop (fst acc) g) \<Longrightarrow> truthy (getprop (fst (ensure_field f acc)) g)"
  by (simp add: ensure_field_def getprop_def update_conv')

lemma ensure_field_same: "truthy (getprop (fst acc) f) \<Longrightarrow> ensure_field f acc = acc"
  by (simp add: ensure_field_def)

lemma distinct_keys_update_array:
  "distinct_keys (JObj a) \<Longrightarrow> distinct_keys (JObj (AList.update k (JArr xs) a))"
  by (rule distinct_keys_update) simp_all

lemma ensure_field_distinct_keys:
  "distinct_keys (JObj (fst acc)) \<Longrightarrow> distinct_keys (JObj (fst (ensure_field f acc)))"
  by (simp add: ensure_field_def distinct_keys_update_array del: distinct_keys.simps)

text \<open>The three ensured fields.\<close>

lemma ensured_fields:
  assumes "ensure_field ''teachers'' (ensure_field ''subjects''
             (ensure_field ''courses'' (meta0, False))) = (meta, changed)"
  shows "truthy (getprop meta ''courses'')" "truthy (getprop meta ''subjects'')"
    "truthy (getprop meta ''teachers'')"
    "distinct_keys (JObj meta0) \<Longrightarrow> distinct_keys (JObj meta)"
proof -
  let ?a = "ensure_field ''courses'' (meta0, False)"
  let ?b = "ensure_field ''subjects'' ?a"
  let ?c = "ensure_field ''teachers'' ?b"
  have m: "meta = fst ?c" using assms by simp
  show "truthy (getprop meta ''courses'')"
    unfolding m by (intro ensure_field_keeps_truthy ensure_field_truthy)
  show "truthy (getprop meta ''subjects'')"
    unfolding m by (intro ensure_field_keeps_truthy ensure_field_truthy)
  show "truthy (getprop meta ''teachers'')"
    unfolding m by (intro ensure_field_truthy)
  show "distinct_keys (JObj meta0) \<Longrightarrow> distinct_keys (JObj meta)"
    unfolding m by (intro ensure_field_distinct_keys) simp
qed

lemma truthy_or_empty: "truthy v \<Longrightarrow> Some (or_empty v) = v"
  by (cases v) (auto simp: or_empty_def)

lemma ensureDefaults_settled:
  assumes healthy: "faults s = []"
    and doc: "meta_doc s = Some d"
    and wf: "distinct_keys (JObj d)"
    and courses: "getprop d ''courses'' = Some (JArr cs)"
    and subjects: "truthy (getprop d ''subjects'')"
    and teachers: "truthy (getprop d ''teachers'')"
    and fixed: "fix_courses cs = Inr (cs, ch)"
  shows "snd (ensureDefaults s) = s"
proof -
  have e: "ensure_field ''teachers'' (ensure_field ''subjects''
             (ensure_field ''courses'' (d, False))) = (d, False)"
    using courses subjects teachers by (simp add: ensure_field_same)
  have u: "AList.update ''courses'' (JArr cs) d = d"
    using courses by (simp add: getprop_def update_triv)
  have sv: "s\<lparr>meta_doc := Some (merge_fields d d)\<rparr> = s"
    using doc wf by (simp add: merge_fields_self)
  show ?thesis
    using healthy doc courses fixed
    by (simp add: ensureDefaults_def catch_def bind_def ret_def loadMeta_healthy e or_empty_def
        lift_def saveMeta_healthy u sv)
qed

lemma ensureDefaults_once:
  assumes healthy: "faults s = []"
  shows "snd (ensureDefaults s) = s \<or>
    (\<exists>d m cs ch. meta_doc s = Some d \<and>
       snd (ensureDefaults s) = s\<lparr>meta_doc := Some (merge_fields d m)\<rparr> \<and>
       getprop m ''courses'' = Some (JArr cs) \<and> truthy (getprop m ''subjects'') \<and>
       truthy (getprop m ''teachers'') \<and> fix_courses cs = Inr (cs, ch) \<and>
       (distinct_keys (JObj d) \<longrightarrow> distinct_keys (JObj m)))"
proof (cases "meta_doc s")
  case None
  have e: "ensure_field ''teachers'' (ensure_field ''subjects''
             (ensure_field ''courses'' (default_meta, False))) = (default_meta, False)"
    by (simp add: ensure_field_def default_meta_def getprop_def)
  have g: "or_empty (getprop default_meta ''courses'') = JArr []"
    by (simp add: default_meta_def getprop_def or_empty_def)
  show ?thesis
    using healthy None
    by (simp add: ensureDefaults_def catch_def bind_def ret_def loadMeta_healthy e g lift_def)
next
  case (Some d)
  obtain meta changed where e: "ensure_field ''teachers'' (ensure_field ''subjects''
             (ensure_field ''courses'' (d, False))) = (meta, changed)"
    by (cases "ensure_field ''teachers'' (ensure_field ''subjects''
             (ensure_field ''courses'' (d, False)))")
  note f = ensured_fields [OF e]
  obtain v where v: "getprop meta ''courses'' = Some v" "or_empty (Some v) = v"
    using truthy_or_empty [OF f(1)] by (cases "getprop meta ''courses''") auto
  show ?thesis
  proof (cases "as_array v ''forEach''")
    case (Inl err)
    then have "snd (ensureDefaults s) = s"
      using healthy Some
      by (simp add: ensureDefaults_def catch_def bind_def ret_def loadMeta_healthy e v lift_def
          throw_def)
    then show ?thesis by simp
  next
    case (Inr cs)
    then have va: "v = JArr cs"
      by (cases v) auto
    show ?thesis
    proof (cases "fix_courses cs")
      case (Inl err)
      then have "snd (ensureDefaults s) = s"
        using healthy Some Inr
        by (simp add: ensureDefaults_def catch_def bind_def ret_def loadMeta_healthy e v lift_def
            throw_def)
      then show ?thesis by simp
    next
      case fixed: (Inr r)
      obtain cs' ch where r: "r = (cs', ch)" by (cases r)
      obtain ch' where twice: "fix_courses cs' = Inr (cs', ch')"
        using fix_courses_twice fixed r by blast
      let ?m = "AList.update ''courses'' (JArr cs') meta"
      have m: "getprop ?m ''courses'' = Some (JArr cs')" "truthy (getprop ?m ''subjects'')"
        "truthy (getprop ?m ''teachers'')"
        using f(2,3) by (simp_all add: getprop_def update_conv')
      have w: "distinct_keys (JObj d) \<longrightarrow> distinct_keys (JObj ?m)"
        using f(4) by (simp add: distinct_keys_update_array del: distinct_keys.simps)
      show ?thesis
      proof (cases "changed \<or> ch")
        case True
        then have "snd (ensureDefaults s) = s\<lparr>meta_doc := Some (merge_fields d ?m)\<rparr>"
          using healthy Some \<open>as_array v ''forEach'' = Inr cs\<close> fixed r
          by (simp add: ensureDefaults_def catch_def bind_def ret_def loadMeta_healthy e v
              lift_def saveMeta_healthy)
        with Some m w twice show ?thesis by blast
      next
        case False
        then have "snd (ensureDefaults s) = s"
          using healthy Some \<open>as_array v ''forEach'' = Inr cs\<close> fixed r
          by (simp add: ensureDefaults_def catch_def bind_def ret_def loadMeta_healthy e v
              lift_def)
        then show ?thesis by simp
      qed
    qed
  qed
qed

lemma ensureDefaults_twice:
  assumes healthy: "faults s = []" and wf: "wf_meta s"
  shows "snd (ensureDefaults (snd (ensureDefaults s))) = snd (ensureDefaults s)"
proof -
  from ensureDefaults_once [OF healthy] show ?thesis
  proof (elim disjE exE conjE)
    assume "snd (ensureDefaults s) = s"
    then show ?thesis by simp
  next
    fix d m cs ch
    assume doc: "meta_doc s = Some d"
      and s1: "snd (ensureDefaults s) = s\<lparr>meta_doc := Some (merge_fields d m)\<rparr>"
      and c: "getprop m ''courses'' = Some (JArr cs)"
      and sub: "truthy (getprop m ''subjects'')" and tea: "truthy (getprop m ''teachers'')"
      and fixed: "fix_courses cs = Inr (cs, ch)"
      and w: "distinct_keys (JObj d) \<longrightarrow> distinct_keys (JObj m)"
    let ?d1 = "merge_fields d m"
    let ?s1 = "s\<lparr>meta_doc := Some ?d1\<rparr>"
    have wd: "distinct_keys (JObj d)"
      using wf doc by (simp add: wf_meta_def)
    have w1: "distinct_keys (JObj ?d1)"
      using merge_keeps_distinct_keys(2) wd w by blast
    have c1: "getprop ?d1 ''courses'' = Some (JArr cs)"
      using merge_fields_lookup [of m "''courses''" "JArr cs" d] c
      by (auto simp: getprop_def merge_val_leaf)
    obtain vs where vs: "getprop m ''subjects'' = Some vs"
      using sub by (cases "getprop m ''subjects''") auto
    obtain vt where vt: "getprop m ''teachers'' = Some vt"
      using tea by (cases "getprop m ''teachers''") auto
    have sub1: "truthy (getprop ?d1 ''subjects'')"
      using merge_fields_lookup [of m "''subjects''" vs d] vs sub
      by (auto simp: getprop_def merge_val_leaf)
    have tea1: "truthy (getprop ?d1 ''teachers'')"
      using merge_fields_lookup [of m "''teachers''" vt d] vt tea
      by (auto simp: getprop_def merge_val_leaf)
    have "snd (ensureDefaults ?s1) = ?s1"
      by (rule ensureDefaults_settled [OF _ _ w1 c1 sub1 tea1 fixed]) (simp_all add: healthy)
    then show ?thesis
      by (simp add: s1)
  qed
qed

subsection \<open>The seeding facade\<close>

lemma drawn_self: "\<exists>n. s = s\<lparr>drawn := n\<rparr>"
  by (rule exI [of _ "drawn s"]) simp

lemma norm_course_state: "\<exists>n. snd (norm_course c s) = s\<lparr>drawn := n\<rparr>"
proof -
  have b: "\<exists>n. s\<lparr>drawn := Suc (drawn s)\<rparr> = s\<lparr>drawn := n\<rparr>"
    by blast
  show ?thesis
    using drawn_self [of s] b
    by (cases c) (auto simp: norm_course_def ret_def throw_def bind_def draw_def Let_def
        split: option.splits)
qed

lemma norm_course_with_students:
  "norm_course c s = (Inr c', s') \<Longrightarrow> course_with_students c'"
  by (cases c)
     (auto simp: norm_course_def ret_def throw_def bind_def draw_def Let_def getprop_def
       update_conv' split: option.splits if_splits)

lemma norm_course_again:
  assumes "course_with_students c"
  shows "\<exists>c' n. norm_course c s = (Inr c', s\<lparr>drawn := n\<rparr>) \<and> normal_course c'"
proof -
  have b: "\<exists>n. s\<lparr>drawn := Suc (drawn s)\<rparr> = s\<lparr>drawn := n\<rparr>"
    by blast
  show ?thesis
    using assms drawn_self [of s] b
    by (cases c)
       (auto simp: norm_course_def ret_def bind_def draw_def Let_def getprop_def update_conv'
         split: option.splits)
qed

lemma norm_course_same:
  "normal_course c \<Longrightarrow> \<exists>n. norm_course c s = (Inr c, s\<lparr>drawn := n\<rparr>)"
proof -
  assume "normal_course c"
  then show ?thesis
    using drawn_self [of s]
    by (cases c) (auto simp: norm_course_def ret_def bind_def draw_def Let_def)
qed

lemma normal_course_with_students: "normal_course c \<Longrightarrow> course_with_students c"
  by (cases c) auto

lemma map_io_norm_state: "\<exists>n. snd (map_io norm_course xs s) = s\<lparr>drawn := n\<rparr>"
proof (induction xs arbitrary: s)
  case Nil
  show ?case using drawn_self [of s] by (simp add: ret_def)
next
  case (Cons x xs)
  obtain r s1 where r: "norm_course x s = (r, s1)" by (cases "norm_course x s")
  obtain n where n: "s1 = s\<lparr>drawn := n\<rparr>"
    using norm_course_state [of x s] r by auto
  show ?case
  proof (cases r)
    case (Inl e)
    then show ?thesis using r n by (auto simp: bind_def)
  next
    case (Inr y)
    obtain r2 s2 where r2: "map_io norm_course xs s1 = (r2, s2)"
      by (cases "map_io norm_course xs s1")
    obtain m where m: "s2 = s1\<lparr>drawn := m\<rparr>"
      using Cons.IH [of s1] r2 by auto
    show ?thesis
      using r Inr r2 n m by (cases r2) (auto simp: bind_def ret_def)
  qed
qed

lemma map_io_norm_with_students:
  "map_io norm_course xs s = (Inr cs, s') \<Longrightarrow>
   list_all course_with_students cs \<and> length cs = length xs"
proof (induction xs arbitrary: s cs s')
  case Nil
  then show ?case by (auto simp: ret_def)
next
  case (Cons x xs)
  from Cons.prems obtain y s1 ys where
    "norm_course x s = (Inr y, s1)" "map_io norm_course xs s1 = (Inr ys, s')" "cs = y # ys"
    by (auto simp: bind_def ret_def split: prod.splits sum.splits)
  then show ?case
    using Cons.IH norm_course_with_students by auto
qed

lemma map_io_norm_again:
  "list_all course_with_students cs \<Longrightarrow>
   \<exists>cs' n. map_io norm_course cs s = (Inr cs', s\<lparr>drawn := n\<rparr>) \<and>
     list_all normal_course cs' \<and> length cs' = length cs"
proof (induction cs arbitrary: s)
  case Nil
  show ?case using drawn_self [of s] by (simp add: ret_def)
next
  case (Cons c cs)
  then obtain c' n where n: "norm_course c s = (Inr c', s\<lparr>drawn := n\<rparr>)" "normal_course c'"
    using norm_course_again [of c s] by auto
  obtain cs' m where "map_io norm_course cs (s\<lparr>drawn := n\<rparr>) = (Inr cs', s\<lparr>drawn := n\<rparr>\<lparr>drawn := m\<rparr>)"
    "list_all normal_course cs'" "length cs' = length cs"
    using Cons by fastforce
  then show ?case
    using n by (auto simp: bind_def ret_def)
qed

lemma map_io_norm_same:
  "list_all normal_course cs \<Longrightarrow> \<exists>n. map_io norm_course cs s = (Inr cs, s\<lparr>drawn := n\<rparr>)"
proof (induction cs arbitrary: s)
  case Nil
  show ?case using drawn_self [of s] by (simp add: ret_def)
next
  case (Cons c cs)
  then obtain n where n: "norm_course c s = (Inr c, s\<lparr>drawn := n\<rparr>)"
    using norm_course_same [of c s] by auto
  obtain m where "map_io norm_course cs (s\<lparr>drawn := n\<rparr>) = (Inr cs, s\<lparr>drawn := n\<rparr>\<lparr>drawn := m\<rparr>)"
    using Cons by fastforce
  then show ?case
    using n by (auto simp: bind_def ret_def)
qed

lemma insert_by_nonempty: "insert_by le x ys \<noteq> []"
  by (cases ys) auto

lemma sort_by_empty: "sort_by le xs = [] \<longleftrightarrow> xs = []"
  by (cases xs) (auto simp: sort_by_def insert_by_nonempty)

lemma query_ordered_healthy:
  "faults s = [] \<Longrightarrow>
   query_ordered s =
     (Inr (sort_by (entry_before (value_le s)) (filter has_date_hour (entries s))), s)"
  by (simp add: query_ordered_def bind_def request_healthy)

lemma loadEntries_seed_healthy:
  "faults s = [] \<Longrightarrow>
   loadEntries_seed s =
     (Inr (map with_id (sort_by (entry_before (value_le s)) (filter has_date_hour (entries s)))), s)"
  by (simp add: loadEntries_seed_def catch_def bind_def ret_def query_ordered_healthy)

lemma add_entry_healthy:
  "faults s = [] \<Longrightarrow>
   add_entry doc s =
     (Inr (gen_id s (gen_count s)),
      s\<lparr>entries := AList.update (gen_id s (gen_count s)) doc (entries s),
        gen_count := Suc (gen_count s)\<rparr>)"
  by (simp add: add_entry_def bind_def request_healthy)

lemma update_member: "(k, v) \<in> set (AList.update k v al)"
  by (induction al) auto

lemma sample_has_date_hour: "has_date_hour (i, sample_entry s)"
  by (simp add: has_date_hour_def sample_entry_def getprop_def)

lemma seed_entries_healthy:
  assumes "faults s = []"
  shows "\<exists>s'. seed_entries s = (Inr (), s') \<and> meta_doc s' = meta_doc s \<and> faults s' = [] \<and>
           filter has_date_hour (entries s') \<noteq> [] \<and>
           (filter has_date_hour (entries s) \<noteq> [] \<longrightarrow> entries s' = entries s)"
proof (cases "filter has_date_hour (entries s) = []")
  case True
  let ?i = "gen_id s (gen_count s)"
  let ?s' = "s\<lparr>entries := AList.update ?i (sample_entry s) (entries s),
                gen_count := Suc (gen_count s)\<rparr>"
  have "seed_entries s = (Inr (), ?s')"
    using assms True
    by (simp add: seed_entries_def bind_def ret_def loadEntries_seed_healthy sort_by_def
        add_entry_healthy)
  moreover have "(?i, sample_entry s) \<in> set (filter has_date_hour (entries ?s'))"
    using update_member [of ?i "sample_entry s" "entries s"] sample_has_date_hour by simp
  then have "filter has_date_hour (entries ?s') \<noteq> []"
    by (metis empty_iff empty_set)
  ultimately show ?thesis
    using assms True by simp
next
  case False
  then have "seed_entries s = (Inr (), s)"
    using assms
    by (simp add: seed_entries_def bind_def ret_def loadEntries_seed_healthy sort_by_empty)
  then show ?thesis
    using assms False by simp
qed

lemma saveMeta_seed_healthy:
  "faults s = [] \<Longrightarrow>
   saveMeta_seed m s =
     (Inr Ok, s\<lparr>meta_doc := Some (case meta_doc s of None \<Rightarrow> m | Some d \<Rightarrow> merge_fields d m)\<rparr>)"
  by (simp add: saveMeta_seed_def catch_def bind_def ret_def set_meta_healthy)

lemma loadMeta_seed_healthy:
  assumes "faults s = []"
  shows "(\<exists>n. loadMeta_seed s = (Inr default_meta, s\<lparr>drawn := n\<rparr>)) \<or>
    (\<exists>d cs n. meta_doc s = Some d \<and> list_all course_with_students cs \<and>
       loadMeta_seed s =
         (Inr (AList.update ''courses'' (JArr cs) (legacy_courses d)), s\<lparr>drawn := n\<rparr>))"
proof (cases "meta_doc s")
  case None
  then have "loadMeta_seed s = (Inr default_meta, s)"
    using assms by (simp add: loadMeta_seed_def catch_def bind_def ret_def get_meta_healthy)
  then show ?thesis
    using drawn_self [of s] by auto
next
  case (Some d)
  let ?data = "legacy_courses d"
  show ?thesis
  proof (cases "as_array (or_empty (getprop ?data ''courses'')) ''map''")
    case (Inl e)
    then have "loadMeta_seed s = (Inr default_meta, s)"
      using assms Some
      by (simp add: loadMeta_seed_def catch_def bind_def ret_def get_meta_healthy Let_def
          lift_def throw_def)
    then show ?thesis
      using drawn_self [of s] by auto
  next
    case (Inr xs)
    obtain r s1 where r: "map_io norm_course xs s = (r, s1)"
      by (cases "map_io norm_course xs s")
    obtain n where n: "s1 = s\<lparr>drawn := n\<rparr>"
      using map_io_norm_state [of xs s] r by auto
    show ?thesis
    proof (cases r)
      case (Inl e)
      then have "loadMeta_seed s = (Inr default_meta, s\<lparr>drawn := n\<rparr>)"
        using assms Some \<open>as_array _ _ = Inr xs\<close> r n
        by (simp add: loadMeta_seed_def catch_def bind_def ret_def get_meta_healthy Let_def
            lift_def)
      then show ?thesis by blast
    next
      case (Inr cs)
      then have "loadMeta_seed s =
          (Inr (AList.update ''courses'' (JArr cs) ?data), s\<lparr>drawn := n\<rparr>)"
        using assms Some \<open>as_array _ _ = Inr xs\<close> r n
        by (simp add: loadMeta_seed_def catch_def bind_def ret_def get_meta_healthy Let_def
            lift_def)
      moreover have "list_all course_with_students cs"
        using map_io_norm_with_students r Inr by blast
      ultimately show ?thesis
        using Some by blast
    qed
  qed
qed

lemma ensureDefaults_seed_steps:
  "loadMeta_seed s = (Inr meta, sa) \<Longrightarrow> seed_metadata meta sa = (Inr r, sb) \<Longrightarrow>
   seed_entries sb = (Inr (), sc) \<Longrightarrow> ensureDefaults_seed s = (Inr (), sc)"
  by (simp add: ensureDefaults_seed_def catch_def bind_def)

lemma normal_courses_not_legacy:
  assumes "getprop meta ''courses'' = Some (JArr cs)" "list_all normal_course cs"
  shows "legacy_courses meta = meta"
proof (cases cs)
  case Nil
  then show ?thesis using assms by (simp add: legacy_courses_def)
next
  case (Cons c cs')
  then have "normal_course c" using assms by simp
  then show ?thesis
    using assms Cons by (cases c) (simp_all add: legacy_courses_def)
qed

lemma legacy_courses_distinct_keys:
  "distinct_keys (JObj d) \<Longrightarrow> distinct_keys (JObj (legacy_courses d))"
  by (simp add: legacy_courses_def distinct_keys_update_array
      split: option.splits jsval.splits list.splits del: distinct_keys.simps)

lemma seed_meta_facts:
  "distinct_keys (JObj seed_meta)"
  "\<exists>cs. getprop seed_meta ''courses'' = Some (JArr cs) \<and> list_all normal_course cs \<and> cs \<noteq> []"
  by (simp_all add: seed_meta_def getprop_def)

text \<open>What is stored after a value was written with merge.\<close>

lemma merged_courses:
  assumes "getprop m ''courses'' = Some (JArr cs)"
  shows "getprop (merge_fields d m) ''courses'' = Some (JArr cs)"
  using merge_fields_lookup [of m "''courses''" "JArr cs" d] assms
  by (auto simp: getprop_def merge_val_leaf)

lemma merged_nonempty_array:
  assumes "nonempty_array (getprop m k)"
  shows "nonempty_array (getprop (merge_fields d m) k)"
proof -
  obtain v where v: "getprop m k = Some v"
    using assms by (cases "getprop m k") (auto simp: nonempty_array_def)
  then show ?thesis
    using merge_fields_lookup [of m k v d] assms
    by (auto simp: getprop_def merge_val_leaf)
qed

lemma settledI:
  assumes "faults s = []" "meta_doc s = Some meta" "distinct_keys (JObj meta)"
    "getprop meta ''courses'' = Some (JArr cs)" "list_all normal_course cs"
    "cs \<noteq> [] \<or> nonempty_array (getprop meta ''subjects'') \<or>
     nonempty_array (getprop meta ''teachers'')"
    "filter has_date_hour (entries s) \<noteq> []"
  shows "settled s"
  using assms unfolding settled_def by blast

lemma ensureDefaults_seed_settled:
  assumes "settled s"
  shows "meta_doc (snd (ensureDefaults_seed s)) = meta_doc s \<and>
         entries (snd (ensureDefaults_seed s)) = entries s"
proof -
  from assms obtain meta cs where healthy: "faults s = []"
    and doc: "meta_doc s = Some meta" and wf: "distinct_keys (JObj meta)"
    and c: "getprop meta ''courses'' = Some (JArr cs)" and normal: "list_all normal_course cs"
    and some: "cs \<noteq> [] \<or> nonempty_array (getprop meta ''subjects'') \<or>
      nonempty_array (getprop meta ''teachers'')"
    and found: "filter has_date_hour (entries s) \<noteq> []"
    unfolding settled_def by blast
  have leg: "legacy_courses meta = meta"
    using c normal by (rule normal_courses_not_legacy)
  have oe: "or_empty (getprop meta ''courses'') = JArr cs"
    by (simp add: c or_empty_def)
  have u: "AList.update ''courses'' (JArr cs) meta = meta"
    using c by (simp add: getprop_def update_triv)
  obtain n where n: "map_io norm_course cs s = (Inr cs, s\<lparr>drawn := n\<rparr>)"
    using map_io_norm_same [OF normal] by blast
  let ?sa = "s\<lparr>drawn := n\<rparr>"
  have l: "loadMeta_seed s = (Inr meta, ?sa)"
    using healthy doc
    by (simp add: loadMeta_seed_def catch_def bind_def ret_def get_meta_healthy Let_def leg oe
        lift_def n u)
  obtain m where m: "map_io norm_course cs ?sa = (Inr cs, ?sa\<lparr>drawn := m\<rparr>)"
    using map_io_norm_same [OF normal] by blast
  let ?sb = "s\<lparr>drawn := m\<rparr>"
  have ne: "\<not> (\<not> nonempty_array (getprop meta ''courses'') \<and>
         \<not> nonempty_array (getprop meta ''subjects'') \<and>
         \<not> nonempty_array (getprop meta ''teachers''))"
    using some c by (cases cs) (auto simp: nonempty_array_def)
  have sv: "seed_metadata meta ?sa = (Inr Ok, ?sb)"
    using healthy doc wf ne
    by (auto simp add: seed_metadata_def bind_def ret_def lift_def oe m u saveMeta_seed_healthy
        merge_fields_self simp del: distinct_keys.simps)
  obtain sc where sc: "seed_entries ?sb = (Inr (), sc)" "meta_doc sc = meta_doc ?sb"
    "entries sc = entries ?sb"
    using seed_entries_healthy [of ?sb] healthy found by auto
  have "ensureDefaults_seed s = (Inr (), sc)"
    using l sv sc(1) by (rule ensureDefaults_seed_steps)
  then show ?thesis
    using sc by simp
qed

text \<open>After the metadata were saved, the sample step settles the database.\<close>

lemma seed_entries_settles:
  assumes "faults sb = []" "meta_doc sb = Some meta" "distinct_keys (JObj meta)"
    "getprop meta ''courses'' = Some (JArr cs)" "list_all normal_course cs"
    "cs \<noteq> [] \<or> nonempty_array (getprop meta ''subjects'') \<or>
     nonempty_array (getprop meta ''teachers'')"
  shows "\<exists>sc. seed_entries sb = (Inr (), sc) \<and> settled sc"
proof -
  obtain sc where sc: "seed_entries sb = (Inr (), sc)" "meta_doc sc = meta_doc sb"
    "faults sc = []" "filter has_date_hour (entries sc) \<noteq> []"
    using seed_entries_healthy [OF assms(1)] by blast
  have "settled sc"
    using sc(3) _ assms(3-6) sc(4) by (rule settledI) (simp add: sc(2) assms(2))
  with sc(1) show ?thesis by blast
qed

text \<open>Seeding: the defaults are merged into the document, or become the document.\<close>

lemma seed_branch_settles:
  assumes healthy: "faults sa = []" and wf: "wf_meta sa"
    and empty: "\<not> nonempty_array (getprop meta ''courses'')"
      "\<not> nonempty_array (getprop meta ''subjects'')"
      "\<not> nonempty_array (getprop meta ''teachers'')"
  shows "\<exists>sb sc. seed_metadata meta sa = (Inr Ok, sb) \<and> seed_entries sb = (Inr (), sc) \<and>
           settled sc"
proof -
  let ?meta1 = "case meta_doc sa of None \<Rightarrow> seed_meta | Some d \<Rightarrow> merge_fields d seed_meta"
  let ?sb = "sa\<lparr>meta_doc := Some ?meta1\<rparr>"
  have sv: "seed_metadata meta sa = (Inr Ok, ?sb)"
    using healthy empty by (simp add: seed_metadata_def saveMeta_seed_healthy)
  obtain cs where cs: "getprop seed_meta ''courses'' = Some (JArr cs)"
    "list_all normal_course cs" "cs \<noteq> []"
    using seed_meta_facts(2) by blast
  have w1: "distinct_keys (JObj ?meta1)"
  proof (cases "meta_doc sa")
    case None
    then show ?thesis using seed_meta_facts(1) by simp
  next
    case (Some d)
    then have "distinct_keys (JObj d)" using wf by (simp add: wf_meta_def)
    then show ?thesis
      using Some merge_keeps_distinct_keys(2) [OF _ seed_meta_facts(1)] by simp
  qed
  have c1: "getprop ?meta1 ''courses'' = Some (JArr cs)"
    using cs(1) by (cases "meta_doc sa") (simp_all add: merged_courses)
  have "\<exists>sc. seed_entries ?sb = (Inr (), sc) \<and> settled sc"
    by (rule seed_entries_settles [OF _ _ w1 c1 cs(2)]) (simp_all add: healthy cs(3))
  with sv show ?thesis by blast
qed

lemma ensureDefaults_seed_settles:
  assumes healthy: "faults s = []" and wf: "wf_meta s"
  shows "settled (snd (ensureDefaults_seed s))"
proof -
  from loadMeta_seed_healthy [OF healthy] show ?thesis
  proof (elim disjE exE conjE)
    fix n
    assume l: "loadMeta_seed s = (Inr default_meta, s\<lparr>drawn := n\<rparr>)"
    have "\<exists>sb sc. seed_metadata default_meta (s\<lparr>drawn := n\<rparr>) = (Inr Ok, sb) \<and>
        seed_entries sb = (Inr (), sc) \<and> settled sc"
      by (rule seed_branch_settles)
         (use healthy wf in \<open>simp_all add: wf_meta_def default_meta_def getprop_def
            nonempty_array_def\<close>)
    then show ?thesis
      using ensureDefaults_seed_steps [OF l] by fastforce
  next
    fix d cs n
    assume doc: "meta_doc s = Some d" and students: "list_all course_with_students cs"
      and l: "loadMeta_seed s =
         (Inr (AList.update ''courses'' (JArr cs) (legacy_courses d)), s\<lparr>drawn := n\<rparr>)"
    let ?m = "AList.update ''courses'' (JArr cs) (legacy_courses d)"
    let ?sa = "s\<lparr>drawn := n\<rparr>"
    have wd: "distinct_keys (JObj d)"
      using wf doc by (simp add: wf_meta_def)
    show ?thesis
    proof (cases "\<not> nonempty_array (getprop ?m ''courses'') \<and>
         \<not> nonempty_array (getprop ?m ''subjects'') \<and>
         \<not> nonempty_array (getprop ?m ''teachers'')")
      case True
      have "\<exists>sb sc. seed_metadata ?m ?sa = (Inr Ok, sb) \<and> seed_entries sb = (Inr (), sc) \<and>
          settled sc"
        by (rule seed_branch_settles) (use healthy wf True in \<open>simp_all add: wf_meta_def\<close>)
      then show ?thesis
        using ensureDefaults_seed_steps [OF l] by fastforce
    next
      case False
      obtain cs2 k where k: "map_io norm_course cs ?sa = (Inr cs2, ?sa\<lparr>drawn := k\<rparr>)"
        "list_all normal_course cs2" "length cs2 = length cs"
        using map_io_norm_again [OF students] by blast
      let ?m2 = "AList.update ''courses'' (JArr cs2) (legacy_courses d)"
      let ?sb = "s\<lparr>drawn := k, meta_doc := Some (merge_fields d ?m2)\<rparr>"
      have oe: "or_empty (getprop ?m ''courses'') = JArr cs"
        by (simp add: getprop_def update_conv' or_empty_def)
      have sv: "seed_metadata ?m ?sa = (Inr Ok, ?sb)"
        using healthy doc False
        by (auto simp add: seed_metadata_def bind_def ret_def lift_def oe k(1)
            saveMeta_seed_healthy)
      have w2: "distinct_keys (JObj ?m2)"
        by (intro distinct_keys_update_array legacy_courses_distinct_keys wd)
      have w1: "distinct_keys (JObj (merge_fields d ?m2))"
        using wd w2 by (rule merge_keeps_distinct_keys(2))
      have c1: "getprop (merge_fields d ?m2) ''courses'' = Some (JArr cs2)"
        by (rule merged_courses) (simp add: getprop_def update_conv')
      have other: "getprop ?m2 f = getprop ?m f" if "f \<noteq> ''courses''" for f
        using that by (simp add: getprop_def update_conv')
      have some: "cs2 \<noteq> [] \<or> nonempty_array (getprop (merge_fields d ?m2) ''subjects'') \<or>
          nonempty_array (getprop (merge_fields d ?m2) ''teachers'')"
      proof -
        from False consider "nonempty_array (getprop ?m ''courses'')"
          | "nonempty_array (getprop ?m ''subjects'')" | "nonempty_array (getprop ?m ''teachers'')"
          by blast
        then show ?thesis
        proof cases
          case 1
          then have "cs \<noteq> []"
            by (auto simp: getprop_def update_conv' nonempty_array_def)
          then show ?thesis using k(3) by auto
        next
          case 2
          then have "nonempty_array (getprop ?m2 ''subjects'')"
            using other [of "''subjects''"] by simp
          then show ?thesis using merged_nonempty_array by blast
        next
          case 3
          then have "nonempty_array (getprop ?m2 ''teachers'')"
            using other [of "''teachers''"] by simp
          then show ?thesis using merged_nonempty_array by blast
        qed
      qed
      have "\<exists>sc. seed_entries ?sb = (Inr (), sc) \<and> settled sc"
        by (rule seed_entries_settles [OF _ _ w1 c1 k(2) some]) (simp_all add: healthy)
      then show ?thesis
        using ensureDefaults_seed_steps [OF l sv] by fastforce
    qed
  qed
qed

text \<open>
  Claim C7. On a database that answers every round trip and whose metadata document is
  well formed, a second \<open>ensureDefaults\<close> right after the first leaves the stored
  metadata and the entries as the first call left them. This holds for the version that
  completes the timetables and for the seeding version.
\<close>

theorem ensureDefaults_idempotent:
  assumes healthy: "faults s = []" and wf: "wf_meta s"
  shows "meta_doc (snd (ensureDefaults (snd (ensureDefaults s)))) = meta_doc (snd (ensureDefaults s)) \<and>
         entries (snd (ensureDefaults (snd (ensureDefaults s)))) = entries (snd (ensureDefaults s)) \<and>
         meta_doc (snd (ensureDefaults_seed (snd (ensureDefaults_seed s)))) =
           meta_doc (snd (ensureDefaults_seed s)) \<and>
         entries (snd (ensureDefaults_seed (snd (ensureDefaults_seed s)))) =
           entries (snd (ensureDefaults_seed s))"
  using ensureDefaults_twice [OF healthy wf]
    ensureDefaults_seed_settled [OF ensureDefaults_seed_settles [OF healthy wf]]
  by simp

lemma ensureDefaults_course_backend:
  "meta_doc (snd (ensureDefaults course_backend)) =
     Some [(''courses'',
            JArr [JObj [(''id'', JStr ''RSA261''), (''name'', JStr ''RSA261''),
                        (''students'', JArr []), (''timetable'', default_timetable)]]),
           (''teachers'', JArr []), (''subjects'', JArr [])]"
  by (simp add: ensureDefaults_def catch_def bind_def ret_def loadMeta_healthy course_backend_def
      demo_backend_def ensure_field_def getprop_def or_empty_def lift_def saveMeta_healthy
      fix_day_def weekdays_def Let_def)

lemma show_nat_0: "show_nat 0 = ''0''"
  by code_simp

lemma ensureDefaults_seed_course_backend:
  "entries (snd (ensureDefaults_seed course_backend)) = [(''auto0'', sample_entry demo_backend)]"
  by (simp add: ensureDefaults_seed_def seed_metadata_def seed_entries_def catch_def bind_def
      ret_def loadMeta_seed_def get_meta_healthy course_backend_def legacy_courses_def
      demo_backend_def getprop_def or_empty_def lift_def saveMeta_seed_healthy Let_def
      nonempty_array_def norm_course_def loadEntries_seed_healthy sort_by_def add_entry_healthy
      show_nat_0 sample_entry_def)

theorem ensureDefaults_idempotent_witness:
  "faults course_backend = [] \<and> wf_meta course_backend \<and>
   meta_doc (snd (ensureDefaults course_backend)) \<noteq> meta_doc course_backend \<and>
   meta_doc (snd (ensureDefaults (snd (ensureDefaults course_backend)))) =
     Some [(''courses'',
            JArr [JObj [(''id'', JStr ''RSA261''), (''name'', JStr ''RSA261''),
                        (''students'', JArr []), (''timetable'', default_timetable)]]),
           (''teachers'', JArr []), (''subjects'', JArr [])] \<and>
   entries (snd (ensureDefaults_seed course_backend)) \<noteq> entries course_backend \<and>
   entries (snd (ensureDefaults_seed (snd (ensureDefaults_seed course_backend)))) =
     [(''auto0'', sample_entry demo_backend)]"
proof -
  have h: "faults course_backend = []" "wf_meta course_backend"
    by (simp_all add: course_backend_def demo_backend_def wf_meta_def)
  have c: "meta_doc course_backend = Some [(''courses'',
        JArr [JObj [(''id'', JStr ''RSA261''), (''name'', JStr ''RSA261''),
                    (''students'', JArr [])]])]"
    "entries course_backend = []"
    by (simp_all add: course_backend_def demo_backend_def)
  show ?thesis
    using ensureDefaults_idempotent [OF h] h
    unfolding ensureDefaults_course_backend ensureDefaults_seed_course_backend c
    by simp
qed

end
